theory Spec2Isabelle
  imports Main "HOL-Library.Sublist" "HOL-Library.Char_ord" "HOL-Library.List_Lexorder"
    "HOL-Library.Product_Lexorder"
begin

section \<open>Cherry-pick jobs: submission, queue, worker\<close>

text \<open>
  The development follows \<^verbatim>\<open>servers/github-helper/src/index.ts\<close>: the submission
  server (\<^verbatim>\<open>enqueueCherryPickJob\<close> and the tool handler) and the worker
  (\<^verbatim>\<open>processJob\<close>, \<^verbatim>\<open>sendWebhook\<close>, \<^verbatim>\<open>main\<close>).
  JavaScript exceptions are values of type \<open>error\<close>; a function that can throw after
  it has changed the state returns the error beside the state it leaves behind.
\<close>

subsection \<open>Errors\<close>

datatype error =
    Error string              \<comment> \<open>\<^verbatim>\<open>new Error(message)\<close>, also what \<^verbatim>\<open>execSync\<close> throws\<close>
  | ZodError                  \<comment> \<open>thrown by \<^verbatim>\<open>CherryPickParams.parse\<close>\<close>
  | InvalidTransitionError    \<comment> \<open>thrown by the queue on a transition from a wrong status\<close>

fun message :: "error \<Rightarrow> string" where
  "message (Error m) = m"
| "message ZodError = ''Invalid input''"
| "message InvalidTransitionError = ''Invalid transition''"

subsection \<open>Submission data\<close>

text \<open>\<^verbatim>\<open>CherryPickParamsType\<close>; the optional \<^verbatim>\<open>callbackUrl\<close> is an option.\<close>

record params =
  repository :: string
  targetBranch :: string
  prFilterQuery :: string
  callbackUrl :: "string option"

text \<open>
  The arguments of a tool call before validation: any field may be absent (or not a
  string), which is \<open>None\<close> here.
\<close>

record args =
  arg_repository :: "string option"
  arg_targetBranch :: "string option"
  arg_prFilterQuery :: "string option"
  arg_callbackUrl :: "string option"

text \<open>
  \<^verbatim>\<open>CherryPickParams.parse\<close>: three required strings (an empty string passes
  \<^verbatim>\<open>z.string()\<close>) and an optional string that must be a URL. What counts as a URL is
  decided by the schema library and is a parameter.
\<close>

definition CherryPickParams_parse :: "(string \<Rightarrow> bool) \<Rightarrow> args \<Rightarrow> error + params" where
  "CherryPickParams_parse is_url a =
     (case (arg_repository a, arg_targetBranch a, arg_prFilterQuery a) of
        (Some r, Some t, Some f) \<Rightarrow>
          (case arg_callbackUrl a of
             None \<Rightarrow> Inr \<lparr>repository = r, targetBranch = t, prFilterQuery = f, callbackUrl = None\<rparr>
           | Some u \<Rightarrow>
               if is_url u
               then Inr \<lparr>repository = r, targetBranch = t, prFilterQuery = f, callbackUrl = Some u\<rparr>
               else Inl ZodError)
      | _ \<Rightarrow> Inl ZodError)"

subsection \<open>The job queue\<close>

text \<open>
  Modelled from the spec: the status of a job in the store of \<^verbatim>\<open>queue.js\<close>, which is
  not among the sources.
\<close>

datatype status = queued | running | completed | failed

text \<open>
  Modelled from the spec: a job record of the store of \<^verbatim>\<open>queue.js\<close>, as the data model
  has it. The last-updated timestamp is written by the transitions and read by none of
  them, and is left out.
\<close>

record job =
  job_id :: string
  job_params :: params
  job_status :: status
  created :: nat
  error_text :: "string option"

type_synonym queue = "job list"

text \<open>
  Modelled from the spec: \<^verbatim>\<open>addJobToQueue\<close> of \<^verbatim>\<open>queue.js\<close>, which is not among the
  sources. It persists a new job in status \<open>queued\<close>; \<open>now\<close> is the clock reading
  of the store.
\<close>

definition addJobToQueue :: "string \<Rightarrow> params \<Rightarrow> nat \<Rightarrow> queue \<Rightarrow> queue" where
  "addJobToQueue jobId p now q =
     q @ [\<lparr>job_id = jobId, job_params = p, job_status = queued, created = now,
           error_text = None\<rparr>]"

text \<open>
  Modelled from the spec: the comparison behind "oldest" in \<^verbatim>\<open>getNextJob\<close> (the
  spec's \<^verbatim>\<open>claimNext\<close>) of \<^verbatim>\<open>queue.js\<close>: of two jobs, the one created first, the
  earlier entry of the store if they were created at the same time.
\<close>

definition older :: "job \<Rightarrow> job \<Rightarrow> job" where
  "older m x = (if created x < created m then x else m)"

text \<open>
  Modelled from the spec: the selection made by \<^verbatim>\<open>getNextJob\<close> of \<^verbatim>\<open>queue.js\<close>,
  the oldest job in status \<open>queued\<close>.
\<close>

definition oldest_queued :: "queue \<Rightarrow> job option" where
  "oldest_queued q =
     (case filter (\<lambda>j. job_status j = queued) q of
        [] \<Rightarrow> None
      | j # js \<Rightarrow> Some (foldl older j js))"

text \<open>
  Modelled from the spec: the write of a transition in \<^verbatim>\<open>queue.js\<close>, which gives the
  job with an identifier its new status and error text.
\<close>

fun set_status :: "string \<Rightarrow> status \<Rightarrow> string option \<Rightarrow> queue \<Rightarrow> queue" where
  "set_status jid st err [] = []"
| "set_status jid st err (j # js) =
     (if job_id j = jid then j\<lparr>job_status := st, error_text := err\<rparr> # js
      else j # set_status jid st err js)"

text \<open>
  Modelled from the spec: \<^verbatim>\<open>getNextJob\<close> of \<^verbatim>\<open>queue.js\<close>. One call is one step on
  the store: it selects the oldest queued job, moves it to \<open>running\<close> and returns it, or
  returns nothing and leaves the store as it is.
\<close>

definition getNextJob :: "queue \<Rightarrow> job option \<times> queue" where
  "getNextJob q =
     (case oldest_queued q of
        None \<Rightarrow> (None, q)
      | Some j \<Rightarrow> (Some (j\<lparr>job_status := running\<rparr>), set_status (job_id j) running None q))"

text \<open>
  Modelled from the spec: the test \<^verbatim>\<open>completeJob\<close> and \<^verbatim>\<open>failJob\<close> of
  \<^verbatim>\<open>queue.js\<close> make, that the job is currently \<open>running\<close>.
\<close>

definition is_running :: "string \<Rightarrow> queue \<Rightarrow> bool" where
  "is_running jid q = (\<exists>j \<in> set q. job_id j = jid \<and> job_status j = running)"

text \<open>
  Modelled from the spec: \<^verbatim>\<open>completeJob\<close> of \<^verbatim>\<open>queue.js\<close>. It moves a running job to
  \<open>completed\<close> and refuses any other job.
\<close>

definition completeJob :: "string \<Rightarrow> queue \<Rightarrow> error + queue" where
  "completeJob jid q =
     (if is_running jid q then Inr (set_status jid completed None q)
      else Inl InvalidTransitionError)"

text \<open>
  Modelled from the spec: \<^verbatim>\<open>failJob\<close> of \<^verbatim>\<open>queue.js\<close>. It moves a running job to
  \<open>failed\<close> with the error text and refuses any other job.
\<close>

definition failJob :: "string \<Rightarrow> string \<Rightarrow> queue \<Rightarrow> error + queue" where
  "failJob jid msg q =
     (if is_running jid q then Inr (set_status jid failed (Some msg) q)
      else Inl InvalidTransitionError)"

subsection \<open>Submission: \<^verbatim>\<open>enqueueCherryPickJob\<close> and the tool handler\<close>

text \<open>\<^verbatim>\<open>JobStatusType\<close>, the answer to a submission.\<close>

record job_status_reply =
  jobId :: string
  reply_status :: status
  reply_message :: string

text \<open>
  \<^verbatim>\<open>enqueueCherryPickJob\<close>. A string is falsy exactly when it is empty. \<open>uuid\<close> is the
  value \<^verbatim>\<open>randomUUID()\<close> returns and \<open>now\<close> the clock of the store.
\<close>

definition enqueueCherryPickJob ::
  "string \<Rightarrow> nat \<Rightarrow> params \<Rightarrow> queue \<Rightarrow> (error + job_status_reply) \<times> queue" where
  "enqueueCherryPickJob uuid now p q =
     (if repository p = [] \<or> targetBranch p = [] \<or> prFilterQuery p = []
      then (Inl (Error ''Missing required parameters: repository, targetBranch, prFilterQuery''), q)
      else (Inr \<lparr>jobId = uuid, reply_status = queued,
                 reply_message = ''Cherry-pick job has been queued successfully.''\<rparr>,
            addJobToQueue uuid p now q))"

text \<open>The \<^verbatim>\<open>cherry-pick\<close> case of the \<^verbatim>\<open>CallToolRequestSchema\<close> handler.\<close>

definition call_cherry_pick ::
  "(string \<Rightarrow> bool) \<Rightarrow> string \<Rightarrow> nat \<Rightarrow> args \<Rightarrow> queue \<Rightarrow> (error + string) \<times> queue" where
  "call_cherry_pick is_url uuid now a q =
     (case CherryPickParams_parse is_url a of
        Inl e \<Rightarrow> (Inl e, q)
      | Inr p \<Rightarrow>
          (case enqueueCherryPickJob uuid now p q of
             (Inl e, q') \<Rightarrow> (Inl e, q')
           | (Inr r, q') \<Rightarrow> (Inr (''Cherry-pick job enqueued with ID: '' @ jobId r), q')))"

subsection \<open>The upstream host and the local clones\<close>

text \<open>
  The worker acts on the world through the \<^verbatim>\<open>gh\<close> and \<^verbatim>\<open>git\<close> command lines. Their
  effect is given by an in-memory repository model. A commit is its identifier; a branch
  is the list of commits reachable from its tip, the tip first.
\<close>

type_synonym sha = string
type_synonym refs = "string \<rightharpoonup> sha list"
type_synonym branches = "(string \<times> sha list) list"

record workspace =
  origin :: string                          \<comment> \<open>the repository the clone was made from\<close>
  heads :: branches                         \<comment> \<open>the local branches\<close>
  tracking :: branches                      \<comment> \<open>the remote-tracking branches\<close>
  HEAD :: string                            \<comment> \<open>the branch that is checked out\<close>
  picking :: "sha option"                   \<comment> \<open>a cherry-pick stopped by a conflict\<close>

record world =
  clones :: "string \<rightharpoonup> workspace"          \<comment> \<open>directory path to clone\<close>
  github :: "string \<rightharpoonup> refs"               \<comment> \<open>repository to its branches on the host\<close>
  cwd :: string                             \<comment> \<open>the current directory of the process\<close>

text \<open>\<^verbatim>\<open>mergedAt\<close> is an ISO 8601 string, whose order is the order of strings.\<close>

record pr =
  mergedAt :: string
  number :: nat
  mergeCommit :: sha                        \<comment> \<open>\<^verbatim>\<open>mergeCommit.oid\<close>\<close>

datatype pick_result =
    Applied sha      \<comment> \<open>a new commit with this identifier on top of the branch\<close>
  | Conflict         \<comment> \<open>stopped, the cherry-pick left in progress\<close>
  | Refused          \<comment> \<open>rejected before anything was touched (an unknown revision)\<close>

record payload =
  payload_jobId :: string
  payload_status :: status
  payload_repository :: string
  payload_error :: "string option"

text \<open>
  What the worker cannot decide itself: the listing that the \<^verbatim>\<open>gh pr list\<close> call gives
  for a repository and a search, as \<^verbatim>\<open>JSON.parse\<close> returns it (or the error output of
  the failing command); what replaying a commit on a history gives; and whether a POST is
  delivered (\<open>Some\<close> the error message if not). The worker takes the listing as it
  comes: what \<^verbatim>\<open>gh\<close> does with the options of the call is not part of the model.
\<close>

record env =
  hub :: "string \<Rightarrow> string \<Rightarrow> string + pr list"
  replay :: "sha \<Rightarrow> sha list \<Rightarrow> pick_result"
  http_post :: "string \<Rightarrow> payload \<Rightarrow> string option"

datatype cmd =
    GitConfig string
  | GitClone string string string
  | GitFetchAll
  | GitCheckout string
  | GitResetHard string
  | GitPull string
  | GitBranchContains sha string
  | GitCherryPick sha
  | GitPush string

definition dq :: string where
  "dq = [CHR 0x22]"

fun command :: "cmd \<Rightarrow> string" where
  "command (GitConfig tok) =
     ''git config --global url.'' @ dq @ ''https://'' @ tok @ ''@github.com/'' @ dq
       @ ''.insteadOf '' @ dq @ ''https://github.com/'' @ dq"
| "command (GitClone b repo dir) =
     ''git clone --branch '' @ b @ '' --single-branch https://github.com/'' @ repo @ ''.git ''
       @ dq @ dir @ dq"
| "command GitFetchAll = ''git fetch --all''"
| "command (GitCheckout b) = ''git checkout '' @ b"
| "command (GitResetHard b) = ''git reset --hard origin/'' @ b"
| "command (GitPull b) = ''git pull origin '' @ b"
| "command (GitBranchContains c b) = ''git branch --contains '' @ c @ '' | grep '' @ b"
| "command (GitCherryPick c) = ''git cherry-pick '' @ c"
| "command (GitPush b) = ''git push origin '' @ b"

definition gh_command :: "string \<Rightarrow> string \<Rightarrow> string" where
  "gh_command repo query =
     ''gh pr list --repo '' @ dq @ repo @ dq @ '' --search '' @ dq @ query @ dq
       @ '' --state merged --sort merged-at --order asc --json mergedAt,number,mergeCommit --limit 9999''"

text \<open>Moving a branch that exists, and moving or creating a branch.\<close>

fun set_head :: "string \<Rightarrow> sha list \<Rightarrow> branches \<Rightarrow> branches" where
  "set_head b cs [] = []"
| "set_head b cs ((b', cs') # hs) =
     (if b' = b then (b', cs) # hs else (b', cs') # set_head b cs hs)"

definition set_ref :: "string \<Rightarrow> sha list \<Rightarrow> branches \<Rightarrow> branches" where
  "set_ref b cs rs = (if map_of rs b = None then rs @ [(b, cs)] else set_head b cs rs)"

text \<open>
  The lines \<^verbatim>\<open>git branch --contains\<close> prints: the local branches that contain the
  commit, the current one marked.
\<close>

definition branch_contains :: "workspace \<Rightarrow> sha \<Rightarrow> string list" where
  "branch_contains w c =
     map (\<lambda>(b, cs). (if b = HEAD w then ''* '' else ''  '') @ b)
       (filter (\<lambda>(b, cs). c \<in> set cs) (heads w))"

text \<open>
  \<^verbatim>\<open>grep\<close> with the name of a branch as its pattern. The pattern is a regular
  expression: a \<^verbatim>\<open>.\<close> in it matches any character, every other character of a branch
  name matches itself (a \<^verbatim>\<open>$\<close> at the end of the name is not modelled). A line is
  selected when the pattern matches somewhere in it, and \<^verbatim>\<open>grep\<close> succeeds when it
  selects a line.
\<close>

fun match_here :: "string \<Rightarrow> string \<Rightarrow> bool" where
  "match_here [] l = True"
| "match_here (p # ps) [] = False"
| "match_here (p # ps) (c # cs) = ((p = CHR ''.'' \<or> p = c) \<and> match_here ps cs)"

fun match_line :: "string \<Rightarrow> string \<Rightarrow> bool" where
  "match_line pat [] = match_here pat []"
| "match_line pat (c # cs) = (match_here pat (c # cs) \<or> match_line pat cs)"

definition grep :: "string \<Rightarrow> string list \<Rightarrow> bool" where
  "grep pat ls = (\<exists>l \<in> set ls. match_line pat l)"

definition put_clone :: "world \<Rightarrow> workspace \<Rightarrow> world" where
  "put_clone wd w = wd\<lparr>clones := (clones wd)(cwd wd \<mapsto> w)\<rparr>"

text \<open>
  The commands on the model. Each gives its exit status (\<open>True\<close> for 0) and the world
  it leaves. The \<^verbatim>\<open>git\<close> commands other than \<^verbatim>\<open>clone\<close> and \<^verbatim>\<open>config\<close> act on the
  clone in the current directory and fail when there is none.
  \<^item> \<^verbatim>\<open>clone --single-branch\<close> needs the branch on the host and a free directory; the
    clone tracks that branch only.
  \<^item> \<^verbatim>\<open>fetch --all\<close> refreshes the tracked branches that the host still has.
  \<^item> \<^verbatim>\<open>checkout\<close> refuses while a stopped cherry-pick leaves unmerged files; it
    creates the local branch from the remote-tracking one when it is missing.
  \<^item> \<^verbatim>\<open>reset --hard origin/b\<close> moves the current branch to the remote-tracking branch
    and drops a cherry-pick in progress.
  \<^item> \<^verbatim>\<open>pull\<close> fast-forwards, or finds nothing to do, and fails on diverged histories.
  \<^item> the pipeline \<^verbatim>\<open>git branch --contains c | grep b\<close> has the exit status of
    \<^verbatim>\<open>grep\<close>.
  \<^item> \<^verbatim>\<open>cherry-pick\<close> asks \<open>replay\<close> for the outcome on the current branch.
  \<^item> \<^verbatim>\<open>push\<close> is accepted when it is a fast-forward of the branch on the host.
\<close>

fun git :: "env \<Rightarrow> cmd \<Rightarrow> world \<Rightarrow> bool \<times> world" where
  "git E (GitConfig tok) wd = (True, wd)"
| "git E (GitClone b repo dir) wd =
     (case github wd repo of
        None \<Rightarrow> (False, wd)
      | Some r \<Rightarrow>
          (case r b of
             None \<Rightarrow> (False, wd)
           | Some cs \<Rightarrow>
               if clones wd dir \<noteq> None then (False, wd)
               else (True, wd\<lparr>clones := (clones wd)(dir \<mapsto>
                       \<lparr>origin = repo, heads = [(b, cs)], tracking = [(b, cs)], HEAD = b,
                        picking = None\<rparr>)\<rparr>)))"
| "git E GitFetchAll wd =
     (case clones wd (cwd wd) of
        None \<Rightarrow> (False, wd)
      | Some w \<Rightarrow>
          (case github wd (origin w) of
             None \<Rightarrow> (False, wd)
           | Some r \<Rightarrow>
               (True, put_clone wd (w\<lparr>tracking :=
                  map (\<lambda>(b, cs). (b, case r b of None \<Rightarrow> cs | Some cs' \<Rightarrow> cs'))
                    (tracking w)\<rparr>))))"
| "git E (GitCheckout b) wd =
     (case clones wd (cwd wd) of
        None \<Rightarrow> (False, wd)
      | Some w \<Rightarrow>
          if picking w \<noteq> None then (False, wd)
          else (case map_of (heads w) b of
                  Some cs \<Rightarrow> (True, put_clone wd (w\<lparr>HEAD := b\<rparr>))
                | None \<Rightarrow>
                    (case map_of (tracking w) b of
                       None \<Rightarrow> (False, wd)
                     | Some cs \<Rightarrow> (True, put_clone wd (w\<lparr>heads := heads w @ [(b, cs)], HEAD := b\<rparr>)))))"
| "git E (GitResetHard b) wd =
     (case clones wd (cwd wd) of
        None \<Rightarrow> (False, wd)
      | Some w \<Rightarrow>
          (case map_of (tracking w) b of
             None \<Rightarrow> (False, wd)
           | Some cs \<Rightarrow>
               (True, put_clone wd (w\<lparr>heads := set_head (HEAD w) cs (heads w), picking := None\<rparr>))))"
| "git E (GitPull b) wd =
     (case clones wd (cwd wd) of
        None \<Rightarrow> (False, wd)
      | Some w \<Rightarrow>
          (case github wd (origin w) of
             None \<Rightarrow> (False, wd)
           | Some r \<Rightarrow>
               (case (r b, map_of (heads w) (HEAD w)) of
                  (Some theirs, Some mine) \<Rightarrow>
                    if picking w \<noteq> None then (False, wd)
                    else if suffix theirs mine
                    then (True, put_clone wd (w\<lparr>tracking := set_ref b theirs (tracking w)\<rparr>))
                    else if suffix mine theirs
                    then (True, put_clone wd (w\<lparr>heads := set_head (HEAD w) theirs (heads w),
                                               tracking := set_ref b theirs (tracking w)\<rparr>))
                    else (False, wd)
                | _ \<Rightarrow> (False, wd))))"
| "git E (GitBranchContains c b) wd =
     (case clones wd (cwd wd) of
        None \<Rightarrow> (False, wd)
      | Some w \<Rightarrow> (grep b (branch_contains w c), wd))"
| "git E (GitCherryPick c) wd =
     (case clones wd (cwd wd) of
        None \<Rightarrow> (False, wd)
      | Some w \<Rightarrow>
          if picking w \<noteq> None then (False, wd)
          else (case map_of (heads w) (HEAD w) of
                  None \<Rightarrow> (False, wd)
                | Some cs \<Rightarrow>
                    (case replay E c cs of
                       Applied n \<Rightarrow> (True, put_clone wd (w\<lparr>heads := set_head (HEAD w) (n # cs) (heads w)\<rparr>))
                     | Conflict \<Rightarrow> (False, put_clone wd (w\<lparr>picking := Some c\<rparr>))
                     | Refused \<Rightarrow> (False, wd))))"
| "git E (GitPush b) wd =
     (case clones wd (cwd wd) of
        None \<Rightarrow> (False, wd)
      | Some w \<Rightarrow>
          (case (map_of (heads w) b, github wd (origin w)) of
             (Some mine, Some r) \<Rightarrow>
               if (case r b of None \<Rightarrow> True | Some theirs \<Rightarrow> suffix theirs mine)
               then (True, (put_clone wd (w\<lparr>tracking := set_ref b mine (tracking w)\<rparr>))
                             \<lparr>github := (github wd)(origin w \<mapsto> r(b \<mapsto> mine))\<rparr>)
               else (False, wd)
           | _ \<Rightarrow> (False, wd)))"

subsection \<open>The worker\<close>

text \<open>
  What the worker does is recorded in order: the commands it runs, the terminal
  transitions of jobs, the POSTs it dispatches and the lines the notifier logs (other
  console output is not recorded).
\<close>

datatype event =
    Gh string string
  | Exec cmd
  | Finished string status
  | Post string payload
  | Log string

record state =
  world_of :: world
  queue_of :: queue
  trace :: "event list"

definition WORKSPACE_DIR :: string where
  "WORKSPACE_DIR = ''/opt/mcp/workspaces''"

definition POLL_INTERVAL :: nat where
  "POLL_INTERVAL = 5000"

text \<open>\<^verbatim>\<open>path.join\<close> on a directory and a relative path without \<^verbatim>\<open>.\<close> or \<^verbatim>\<open>..\<close> segments.\<close>

definition path_join :: "string \<Rightarrow> string \<Rightarrow> string" where
  "path_join d r = d @ ''/'' @ r"

text \<open>
  \<^verbatim>\<open>run\<close> (and the bare \<^verbatim>\<open>execSync\<close> of the skip check): a command that exits with
  another status than 0 throws an error whose message names the command.
\<close>

definition run :: "env \<Rightarrow> cmd \<Rightarrow> state \<Rightarrow> error option \<times> state" where
  "run E c s =
     (case git E c (world_of s) of
        (ok, wd) \<Rightarrow>
          (if ok then None else Some (Error (''Command failed: '' @ command c)),
           s\<lparr>world_of := wd, trace := trace s @ [Exec c]\<rparr>))"

fun run_all :: "env \<Rightarrow> cmd list \<Rightarrow> state \<Rightarrow> error option \<times> state" where
  "run_all E [] s = (None, s)"
| "run_all E (c # cs) s =
     (case run E c s of
        (Some e, s') \<Rightarrow> (Some e, s')
      | (None, s') \<Rightarrow> run_all E cs s')"

definition chdir :: "string \<Rightarrow> state \<Rightarrow> error option \<times> state" where
  "chdir dir s =
     (if clones (world_of s) dir = None
      then (Some (Error (''ENOENT: no such file or directory, chdir '' @ dir)), s)
      else (None, s\<lparr>world_of := (world_of s)\<lparr>cwd := dir\<rparr>\<rparr>))"

text \<open>
  The loop over \<^verbatim>\<open>commitsToPick\<close>: the skip check in its own \<^verbatim>\<open>try\<close>, whose
  \<^verbatim>\<open>catch\<close> goes on to the cherry-pick; a failing cherry-pick throws out of the loop.
\<close>

fun pick_loop :: "env \<Rightarrow> string \<Rightarrow> sha list \<Rightarrow> state \<Rightarrow> error option \<times> state" where
  "pick_loop E tb [] s = (None, s)"
| "pick_loop E tb (c # rest) s =
     (case run E (GitBranchContains c tb) s of
        (None, s1) \<Rightarrow> pick_loop E tb rest s1
      | (Some _, s1) \<Rightarrow>
          (case run E (GitCherryPick c) s1 of
             (Some e, s2) \<Rightarrow> (Some e, s2)
           | (None, s2) \<Rightarrow> pick_loop E tb rest s2))"

definition commitsToPick :: "pr list \<Rightarrow> sha list" where
  "commitsToPick all_prs = map mergeCommit all_prs"

text \<open>
  \<^verbatim>\<open>processJob\<close>. A failing \<^verbatim>\<open>gh\<close> call throws with the error output appended to the
  message; the listing of a successful one is used as it comes.
\<close>

definition processJob :: "env \<Rightarrow> string \<Rightarrow> params \<Rightarrow> state \<Rightarrow> error option \<times> state" where
  "processJob E jid p s =
     (let WORKSPACE = path_join WORKSPACE_DIR (repository p);
          s0 = s\<lparr>trace := trace s @ [Gh (repository p) (prFilterQuery p)]\<rparr>
      in case hub E (repository p) (prFilterQuery p) of
           Inl err \<Rightarrow>
             (Some (Error (''Command failed: '' @ gh_command (repository p) (prFilterQuery p)
                           @ [CHR 0x0A] @ err)), s0)
         | Inr all_prs \<Rightarrow>
             (if all_prs = [] then (None, s0)
                 else
                   (case (if clones (world_of s0) WORKSPACE = None
                          then run E (GitClone (targetBranch p) (repository p) WORKSPACE) s0
                          else (None, s0)) of
                      (Some e, s1) \<Rightarrow> (Some e, s1)
                    | (None, s1) \<Rightarrow>
                        (case chdir WORKSPACE s1 of
                           (Some e, s2) \<Rightarrow> (Some e, s2)
                         | (None, s2) \<Rightarrow>
                             (case run_all E [GitFetchAll, GitCheckout (targetBranch p),
                                              GitResetHard (targetBranch p),
                                              GitPull (targetBranch p)] s2 of
                                (Some e, s3) \<Rightarrow> (Some e, s3)
                              | (None, s3) \<Rightarrow>
                                  (case pick_loop E (targetBranch p) (commitsToPick all_prs) s3 of
                                     (Some e, s4) \<Rightarrow> (Some e, s4)
                                   | (None, s4) \<Rightarrow> run E (GitPush (targetBranch p)) s4))))))"

text \<open>
  \<^verbatim>\<open>sendWebhook\<close>. The request is dispatched and the function returns; the handlers of
  the promise only log, and their line is recorded right after the request.
\<close>

definition sendWebhook ::
  "env \<Rightarrow> string \<Rightarrow> params \<Rightarrow> status \<Rightarrow> string option \<Rightarrow> state \<Rightarrow> state" where
  "sendWebhook E jid p st err s =
     (case callbackUrl p of
        None \<Rightarrow> s
      | Some u \<Rightarrow>
          if u = [] then s
          else
            (let body = \<lparr>payload_jobId = jid, payload_status = st,
                         payload_repository = repository p,
                         payload_error = (if err = Some [] then None else err)\<rparr>
             in s\<lparr>trace := trace s @
                  [Log (''[Worker] Sending webhook to: '' @ u),
                   Post u body,
                   Log (case http_post E u body of
                          None \<Rightarrow> ''[Worker] Webhook sent successfully.''
                        | Some m \<Rightarrow> ''[Worker] Failed to send webhook: '' @ m)]\<rparr>))"

text \<open>
  The \<^verbatim>\<open>catch\<close> of the inner \<^verbatim>\<open>try\<close> of \<^verbatim>\<open>main\<close>. The branch for a failed
  cherry-pick has no statement in it. An error of \<^verbatim>\<open>failJob\<close> reaches the outer
  \<^verbatim>\<open>catch\<close>, which has none either.
\<close>

definition job_failed :: "env \<Rightarrow> job \<Rightarrow> error \<Rightarrow> state \<Rightarrow> state" where
  "job_failed E j e s =
     (let s' = (if sublist ''cherry-pick'' (message e) then s else s)
      in case failJob (job_id j) (message e) (queue_of s') of
           Inl _ \<Rightarrow> s'
         | Inr q \<Rightarrow>
             sendWebhook E (job_id j) (job_params j) failed (Some (message e))
               (s'\<lparr>queue_of := q, trace := trace s' @ [Finished (job_id j) failed]\<rparr>))"

text \<open>
  One turn of the \<^verbatim>\<open>while (true)\<close> of \<^verbatim>\<open>main\<close>. The branch taken when there is no
  job has no statement in it.
\<close>

definition iteration :: "env \<Rightarrow> state \<Rightarrow> state" where
  "iteration E s =
     (case getNextJob (queue_of s) of
        (None, q) \<Rightarrow> s\<lparr>queue_of := q\<rparr>
      | (Some j, q) \<Rightarrow>
          (case processJob E (job_id j) (job_params j) (s\<lparr>queue_of := q\<rparr>) of
             (Some e, s1) \<Rightarrow> job_failed E j e s1
           | (None, s1) \<Rightarrow>
               (case completeJob (job_id j) (queue_of s1) of
                  Inl e \<Rightarrow> job_failed E j e s1
                | Inr q' \<Rightarrow>
                    sendWebhook E (job_id j) (job_params j) completed None
                      (s1\<lparr>queue_of := q', trace := trace s1 @ [Finished (job_id j) completed]\<rparr>))))"

text \<open>The loop never ends by itself; \<open>worker_loop n\<close> is its first \<open>n\<close> turns.\<close>

fun worker_loop :: "nat \<Rightarrow> env \<Rightarrow> state \<Rightarrow> state" where
  "worker_loop 0 E s = s"
| "worker_loop (Suc n) E s = worker_loop n E (iteration E s)"

text \<open>
  \<^verbatim>\<open>main\<close>: without \<^verbatim>\<open>GH_TOKEN\<close> the process exits with status 1; a failing
  \<^verbatim>\<open>git config\<close> rejects \<^verbatim>\<open>main\<close>.
\<close>

definition main :: "nat \<Rightarrow> env \<Rightarrow> string option \<Rightarrow> state \<Rightarrow> error + state" where
  "main n E GH_TOKEN s =
     (case GH_TOKEN of
        None \<Rightarrow> Inl (Error ''[FATAL] GH_TOKEN environment variable is not set!'')
      | Some tok \<Rightarrow>
          if tok = [] then Inl (Error ''[FATAL] GH_TOKEN environment variable is not set!'')
          else (case run E (GitConfig tok) s of
                  (Some e, s') \<Rightarrow> Inl e
                | (None, s') \<Rightarrow> Inr (worker_loop n E s')))"

subsection \<open>Auxiliary notions\<close>

text \<open>
  The events of commands, and the relation between a state and a later one that differs
  from it in the world and in more such events only.
\<close>

definition is_shell :: "event \<Rightarrow> bool" where
  "is_shell e = (case e of Gh _ _ \<Rightarrow> True | Exec _ \<Rightarrow> True | _ \<Rightarrow> False)"

definition extends :: "state \<Rightarrow> state \<Rightarrow> bool" where
  "extends s s' \<longleftrightarrow> queue_of s' = queue_of s \<and> (\<exists>evs. trace s' = trace s @ evs \<and> list_all is_shell evs)"

text \<open>
  The replay sequence the specification asks for: the merge commits of the pull requests
  ascending by merge timestamp, pull requests merged at the same time ascending by
  number.
\<close>

definition spec_replay :: "pr list \<Rightarrow> sha list" where
  "spec_replay prs = map mergeCommit (sort_key (\<lambda>x. (mergedAt x, number x)) prs)"

text \<open>A renumbering of pull requests, which leaves everything but the numbers.\<close>

definition renumber :: "(nat \<Rightarrow> nat) \<Rightarrow> pr list \<Rightarrow> pr list" where
  "renumber f xs = map (\<lambda>x. x\<lparr>number := f (number x)\<rparr>) xs"

text \<open>
  The commits the replay loop has examined, in order: those of the skip checks among the
  events.
\<close>

fun examined :: "event list \<Rightarrow> sha list" where
  "examined [] = []"
| "examined (Exec (GitBranchContains c b) # es) = c # examined es"
| "examined (e # es) = examined es"

subsection \<open>Concrete inputs\<close>

text \<open>The submission of the scenario of the specification, and what surrounds it.\<close>

definition p_ok :: params where
  "p_ok = \<lparr>repository = ''org/app'', targetBranch = ''release/2.1'',
           prFilterQuery = ''label:backport'', callbackUrl = None\<rparr>"

definition job1 :: job where
  "job1 = \<lparr>job_id = ''job-1'', job_params = p_ok, job_status = queued, created = 1,
           error_text = None\<rparr>"

definition world0 :: world where
  "world0 = \<lparr>clones = Map.empty,
             github = [''org/app'' \<mapsto> [''release/2.1'' \<mapsto> [''r1'', ''r0'']]],
             cwd = ''/''\<rparr>"

definition E_none :: env where
  "E_none = \<lparr>hub = (\<lambda>r f. Inr []), replay = (\<lambda>c h. Refused), http_post = (\<lambda>u b. None)\<rparr>"

definition s_one :: state where
  "s_one = \<lparr>world_of = world0, queue_of = [job1], trace = []\<rparr>"

definition s_idle :: state where
  "s_idle = \<lparr>world_of = world0, queue_of = [job1\<lparr>job_status := completed\<rparr>], trace = []\<rparr>"

definition p_cb :: params where
  "p_cb = p_ok\<lparr>callbackUrl := Some ''https://ci.example/hook''\<rparr>"

definition job2 :: job where
  "job2 = \<lparr>job_id = ''job-2'', job_params = p_cb, job_status = queued, created = 2,
           error_text = None\<rparr>"

definition E_down :: env where
  "E_down = \<lparr>hub = (\<lambda>r f. Inr []), replay = (\<lambda>c h. Refused),
             http_post = (\<lambda>u b. Some ''connect ECONNREFUSED'')\<rparr>"

definition s_two :: state where
  "s_two = \<lparr>world_of = world0, queue_of = [job2], trace = []\<rparr>"

text \<open>
  A listing of two pull requests merged at the same time, the one with the higher number
  first; and ten thousand merged pull requests.
\<close>

definition prs_tie :: "pr list" where
  "prs_tie = [\<lparr>mergedAt = ''2024-05-01T10:00:00Z'', number = 2, mergeCommit = ''c_B''\<rparr>,
              \<lparr>mergedAt = ''2024-05-01T10:00:00Z'', number = 1, mergeCommit = ''c_A''\<rparr>]"


text \<open>
  A clone with two local branches, of which \<^verbatim>\<open>release-old\<close> alone holds the commit
  \<^verbatim>\<open>x1\<close>.
\<close>

definition ws_two :: workspace where
  "ws_two = \<lparr>origin = ''org/app'',
             heads = [(''release'', [''r1'', ''r0'']), (''release-old'', [''x1'', ''r0''])],
             tracking = [(''release'', [''r1'', ''r0''])],
             HEAD = ''release'', picking = None\<rparr>"

definition s_branches :: state where
  "s_branches = \<lparr>world_of = \<lparr>clones = [''/opt/mcp/workspaces/org/app'' \<mapsto> ws_two],
                               github = [''org/app'' \<mapsto> [''release'' \<mapsto> [''r1'', ''r0'']]],
                               cwd = ''/opt/mcp/workspaces/org/app''\<rparr>,
                  queue_of = [], trace = []\<rparr>"

text \<open>
  The scenario of the specification: three pull requests merged in the order B, A, C, a
  full clone of the repository made beforehand, and a replay of A that conflicts.
\<close>

definition WS :: string where
  "WS = ''/opt/mcp/workspaces/org/app''"

definition prs_scn :: "pr list" where
  "prs_scn = [\<lparr>mergedAt = ''2024-05-01T09:00:00Z'', number = 2, mergeCommit = ''c_B''\<rparr>,
              \<lparr>mergedAt = ''2024-05-02T09:00:00Z'', number = 1, mergeCommit = ''c_A''\<rparr>,
              \<lparr>mergedAt = ''2024-05-03T09:00:00Z'', number = 3, mergeCommit = ''c_C''\<rparr>]"

definition E_conflict :: env where
  "E_conflict = \<lparr>hub = (\<lambda>r f. Inr prs_scn),
                 replay = (\<lambda>c h. if c = ''c_A'' then Conflict else Applied (c @ ''*'')),
                 http_post = (\<lambda>u b. None)\<rparr>"

definition clone_scn :: "string \<Rightarrow> sha list \<Rightarrow> sha option \<Rightarrow> workspace" where
  "clone_scn cur rel pk =
     \<lparr>origin = ''org/app'',
      heads = [(''main'', [''c_C'', ''c_A'', ''c_B'', ''r0'']), (''release/2.1'', rel)],
      tracking = [(''main'', [''c_C'', ''c_A'', ''c_B'', ''r0'']), (''release/2.1'', [''r1'', ''r0''])],
      HEAD = cur, picking = pk\<rparr>"

definition world_scn :: "string \<Rightarrow> workspace \<Rightarrow> world" where
  "world_scn dir w =
     \<lparr>clones = [WS \<mapsto> w],
      github = [''org/app'' \<mapsto> [''main'' \<mapsto> [''c_C'', ''c_A'', ''c_B'', ''r0''],
                                   ''release/2.1'' \<mapsto> [''r1'', ''r0'']]],
      cwd = dir\<rparr>"

definition s_scn :: state where
  "s_scn = \<lparr>world_of = world_scn ''/'' (clone_scn ''main'' [''r1'', ''r0''] None),
             queue_of = [job1], trace = []\<rparr>"

text \<open>
  A pull request A and a pull request R that reverts it. Replaying a commit gives a new
  commit, named after the commit and the tip it was put on.
\<close>

definition prs_rev :: "pr list" where
  "prs_rev = [\<lparr>mergedAt = ''2024-05-01T09:00:00Z'', number = 1, mergeCommit = ''c_A''\<rparr>,
              \<lparr>mergedAt = ''2024-05-02T09:00:00Z'', number = 2, mergeCommit = ''c_R''\<rparr>]"

definition E_rev :: env where
  "E_rev = \<lparr>hub = (\<lambda>r f. Inr prs_rev),
            replay = (\<lambda>c h. case h of [] \<Rightarrow> Refused | t # _ \<Rightarrow> Applied (c @ ''@'' @ t)),
            http_post = (\<lambda>u b. None)\<rparr>"

definition cmds_rev :: "event list" where
  "cmds_rev =
     [Gh ''org/app'' ''label:backport'',
      Exec GitFetchAll, Exec (GitCheckout ''release/2.1''),
      Exec (GitResetHard ''release/2.1''), Exec (GitPull ''release/2.1''),
      Exec (GitBranchContains ''c_A'' ''release/2.1''), Exec (GitCherryPick ''c_A''),
      Exec (GitBranchContains ''c_R'' ''release/2.1''), Exec (GitCherryPick ''c_R''),
      Exec (GitPush ''release/2.1'')]"

definition s_rev :: "string \<Rightarrow> string \<Rightarrow> sha list \<Rightarrow> event list \<Rightarrow> state" where
  "s_rev dir cur rel evs =
     \<lparr>world_of = \<lparr>clones = [WS \<mapsto>
          \<lparr>origin = ''org/app'',
           heads = [(''main'', [''c_R'', ''c_A'', ''r0'']), (''release/2.1'', rel)],
           tracking = [(''main'', [''c_R'', ''c_A'', ''r0'']), (''release/2.1'', rel)],
           HEAD = cur, picking = None\<rparr>],
        github = [''org/app'' \<mapsto> [''main'' \<mapsto> [''c_R'', ''c_A'', ''r0''], ''release/2.1'' \<mapsto> rel]],
        cwd = dir\<rparr>,
      queue_of = [], trace = evs\<rparr>"

text \<open>
  Three outcomes of the \<^verbatim>\<open>gh\<close> call: the listing with the two pull requests merged at
  the same time; 9999 entries for the ten thousand merged pull requests, as a query that
  keeps to the limit it is given returns them; and a failure. With the first, the state
  the job leaves when it starts from the clone of the scenario.
\<close>

definition E_tie :: env where
  "E_tie = \<lparr>hub = (\<lambda>r f. Inr prs_tie), replay = (\<lambda>c h. Applied (c @ ''*'')),
            http_post = (\<lambda>u b. None)\<rparr>"



definition s_tie_done :: state where
  "s_tie_done =
     \<lparr>world_of = \<lparr>clones = [WS \<mapsto>
          \<lparr>origin = ''org/app'',
           heads = [(''main'', [''c_C'', ''c_A'', ''c_B'', ''r0'']),
                    (''release/2.1'', [''c_A*'', ''c_B*'', ''r1'', ''r0''])],
           tracking = [(''main'', [''c_C'', ''c_A'', ''c_B'', ''r0'']),
                       (''release/2.1'', [''c_A*'', ''c_B*'', ''r1'', ''r0''])],
           HEAD = ''release/2.1'', picking = None\<rparr>],
        github = [''org/app'' \<mapsto> [''main'' \<mapsto> [''c_C'', ''c_A'', ''c_B'', ''r0''],
                                     ''release/2.1'' \<mapsto> [''c_A*'', ''c_B*'', ''r1'', ''r0'']]],
        cwd = WS\<rparr>,
      queue_of = [job1],
      trace = [Gh ''org/app'' ''label:backport'',
               Exec GitFetchAll, Exec (GitCheckout ''release/2.1''),
               Exec (GitResetHard ''release/2.1''), Exec (GitPull ''release/2.1''),
               Exec (GitBranchContains ''c_B'' ''release/2.1''), Exec (GitCherryPick ''c_B''),
               Exec (GitBranchContains ''c_A'' ''release/2.1''), Exec (GitCherryPick ''c_A''),
               Exec (GitPush ''release/2.1'')]\<rparr>"

section \<open>Properties\<close>

subsection \<open>Submission\<close>

text \<open>
  C5. \<^verbatim>\<open>enqueueCherryPickJob\<close> rejects a submission whose repository, target branch or
  filter query is empty with the error for missing parameters and leaves the queue as it
  was; otherwise it appends a job in status \<open>queued\<close> with the new identifier and
  returns that identifier with status \<open>queued\<close>. Through the tool handler, a
  submission where one of the three is absent or empty is rejected too, with no job
  created.
\<close>

theorem enqueue_validates:
  "(repository p = [] \<or> targetBranch p = [] \<or> prFilterQuery p = [] \<longrightarrow>
      enqueueCherryPickJob uuid now p q =
        (Inl (Error ''Missing required parameters: repository, targetBranch, prFilterQuery''), q))
   \<and> (repository p \<noteq> [] \<and> targetBranch p \<noteq> [] \<and> prFilterQuery p \<noteq> [] \<longrightarrow>
      (\<exists>r. enqueueCherryPickJob uuid now p q =
             (Inr r, q @ [\<lparr>job_id = uuid, job_params = p, job_status = queued, created = now,
                            error_text = None\<rparr>])
           \<and> jobId r = uuid \<and> reply_status r = queued))
   \<and> (arg_repository a \<in> {None, Some []} \<or> arg_targetBranch a \<in> {None, Some []}
        \<or> arg_prFilterQuery a \<in> {None, Some []} \<longrightarrow>
      (\<exists>e. call_cherry_pick is_url uuid now a q = (Inl e, q)))"
  by (auto simp: enqueueCherryPickJob_def addJobToQueue_def call_cherry_pick_def
        CherryPickParams_parse_def split: option.splits)

theorem enqueue_validates_witness:
  "enqueueCherryPickJob ''id-1'' 7 (p_ok\<lparr>targetBranch := []\<rparr>) [] =
     (Inl (Error ''Missing required parameters: repository, targetBranch, prFilterQuery''), [])
   \<and> enqueueCherryPickJob ''id-1'' 7 p_ok [] =
       (Inr \<lparr>jobId = ''id-1'', reply_status = queued,
             reply_message = ''Cherry-pick job has been queued successfully.''\<rparr>,
        [\<lparr>job_id = ''id-1'', job_params = p_ok, job_status = queued, created = 7,
          error_text = None\<rparr>])
   \<and> (\<exists>e. call_cherry_pick (\<lambda>u. True) ''id-1'' 7
         \<lparr>arg_repository = Some ''org/app'', arg_targetBranch = None,
          arg_prFilterQuery = Some ''label:backport'', arg_callbackUrl = None\<rparr> [] = (Inl e, []))"
  using enqueue_validates [of "p_ok\<lparr>targetBranch := []\<rparr>" "''id-1''" 7 "[]"]
    enqueue_validates [of p_ok "''id-1''" 7 "[]"
      "\<lparr>arg_repository = Some ''org/app'', arg_targetBranch = None,
        arg_prFilterQuery = Some ''label:backport'', arg_callbackUrl = None\<rparr>" "\<lambda>u. True"]
  by (simp add: p_ok_def enqueueCherryPickJob_def)

subsection \<open>The queue and the trace: auxiliary facts\<close>

lemma older_cases: "older m x = m \<or> older m x = x"
  by (simp add: older_def)

lemma older_le: "created (older m x) \<le> created m" "created (older m x) \<le> created x"
  by (simp_all add: older_def)

lemma foldl_older_mem: "foldl older j js \<in> set (j # js)"
proof (induction js arbitrary: j)
  case Nil
  then show ?case by simp
next
  case (Cons x xs)
  have "foldl older (older j x) xs \<in> set (older j x # xs)" by (rule Cons.IH)
  with older_cases [of j x] show ?case by auto
qed

lemma oldest_queued_SomeD:
  "oldest_queued q = Some j \<Longrightarrow> j \<in> set q \<and> job_status j = queued"
proof -
  assume a: "oldest_queued q = Some j"
  then obtain x xs where f: "filter (\<lambda>j. job_status j = queued) q = x # xs" and j: "j = foldl older x xs"
    by (auto simp: oldest_queued_def split: list.splits)
  have "j \<in> set (x # xs)" unfolding j by (rule foldl_older_mem)
  then have "j \<in> set (filter (\<lambda>j. job_status j = queued) q)" using f by simp
  then show ?thesis by simp
qed

lemma oldest_queued_None: "oldest_queued q = None \<longleftrightarrow> (\<forall>j \<in> set q. job_status j \<noteq> queued)"
proof (cases "filter (\<lambda>j. job_status j = queued) q")
  case Nil
  then show ?thesis by (simp add: oldest_queued_def filter_empty_conv)
next
  case (Cons x xs)
  then have "x \<in> set (filter (\<lambda>j. job_status j = queued) q)" by simp
  then have "x \<in> set q \<and> job_status x = queued" by simp
  with Cons show ?thesis by (auto simp: oldest_queued_def)
qed

lemma set_status_hit:
  "j \<in> set q \<Longrightarrow> \<exists>j' \<in> set (set_status (job_id j) st err q). job_id j' = job_id j \<and> job_status j' = st \<and> error_text j' = err"
  by (induction q) auto

lemma set_status_hit_id:
  "\<exists>j \<in> set q. job_id j = jid \<Longrightarrow> \<exists>j' \<in> set (set_status jid st err q). job_id j' = jid \<and> job_status j' = st \<and> error_text j' = err"
  using set_status_hit by blast

lemma getNextJob_running:
  "getNextJob q = (Some j, q') \<Longrightarrow> is_running (job_id j) q'"
proof -
  assume a: "getNextJob q = (Some j, q')"
  then obtain j0 where o: "oldest_queued q = Some j0" and j: "j = j0\<lparr>job_status := running\<rparr>"
    and q': "q' = set_status (job_id j0) running None q"
    by (auto simp: getNextJob_def split: option.splits)
  from o have "j0 \<in> set q" by (simp add: oldest_queued_SomeD)
  from set_status_hit [OF this, of running None] show ?thesis
    unfolding is_running_def q' j by auto
qed

lemma getNextJob_None: "getNextJob q = (None, q') \<Longrightarrow> q' = q"
  by (auto simp: getNextJob_def split: option.splits)

lemma extends_refl: "extends s s"
  by (simp add: extends_def)

lemma extends_trans: "extends s s' \<Longrightarrow> extends s' s'' \<Longrightarrow> extends s s''"
  by (auto simp: extends_def)

lemma run_extends: "run E c s = (r, s') \<Longrightarrow> extends s s'"
  by (auto simp: run_def extends_def is_shell_def split: prod.splits)

lemma run_all_extends: "run_all E cs s = (r, s') \<Longrightarrow> extends s s'"
proof (induction cs arbitrary: s)
  case Nil then show ?case by (simp add: extends_refl)
next
  case (Cons c cs)
  obtain r1 s1 where r: "run E c s = (r1, s1)" by (cases "run E c s")
  show ?case
  proof (cases r1)
    case None
    with Cons r show ?thesis by (auto intro: extends_trans run_extends)
  next
    case (Some e)
    with Cons r show ?thesis by (auto intro: run_extends)
  qed
qed

lemma chdir_extends: "chdir d s = (r, s') \<Longrightarrow> extends s s'"
  by (auto simp: chdir_def extends_def split: if_splits)

lemma pick_loop_extends: "pick_loop E tb cs s = (r, s') \<Longrightarrow> extends s s'"
proof (induction cs arbitrary: s)
  case Nil then show ?case by (simp add: extends_refl)
next
  case (Cons c cs)
  obtain r1 s1 where r1: "run E (GitBranchContains c tb) s = (r1, s1)" by (cases "run E (GitBranchContains c tb) s")
  obtain r2 s2 where r2: "run E (GitCherryPick c) s1 = (r2, s2)" by (cases "run E (GitCherryPick c) s1")
  have e1: "extends s s1" using r1 by (rule run_extends)
  have e2: "extends s1 s2" using r2 by (rule run_extends)
  show ?case
  proof (cases r1)
    case None
    with Cons r1 e1 show ?thesis by (auto intro: extends_trans)
  next
    case (Some e)
    show ?thesis
    proof (cases r2)
      case None
      with Cons Some r1 r2 e1 e2 show ?thesis by (auto intro: extends_trans)
    next
      case (Some e')
      with Cons \<open>r1 = Some e\<close> r1 r2 e1 e2 show ?thesis by (auto intro: extends_trans)
    qed
  qed
qed

lemma gh_extends: "extends s (s\<lparr>trace := trace s @ [Gh a b]\<rparr>)"
  by (simp add: extends_def is_shell_def)

lemma processJob_extends:
  assumes "processJob E jid p s = (r, s')"
  shows "extends s s'"
proof -
  define s0 where "s0 = s\<lparr>trace := trace s @ [Gh (repository p) (prFilterQuery p)]\<rparr>"
  define W where "W = path_join WORKSPACE_DIR (repository p)"
  have e0: "extends s s0" unfolding s0_def by (rule gh_extends)
  show ?thesis
  proof (cases "hub E (repository p) (prFilterQuery p)")
    case (Inl err)
    with assms have "s' = s0" by (simp add: processJob_def Let_def s0_def)
    with e0 show ?thesis by simp
  next
    case (Inr m)
    show ?thesis
    proof (cases "m = []")
      case True
      with Inr assms have "s' = s0" by (simp add: processJob_def Let_def s0_def)
      with e0 show ?thesis by simp
    next
      case False
      obtain r1 s1 where c1: "(if clones (world_of s0) W = None
          then run E (GitClone (targetBranch p) (repository p) W) s0 else (None, s0)) = (r1, s1)"
        by (cases "if clones (world_of s0) W = None
          then run E (GitClone (targetBranch p) (repository p) W) s0 else (None, s0)")
      obtain r2 s2 where c2: "chdir W s1 = (r2, s2)" by (cases "chdir W s1")
      obtain r3 s3 where c3: "run_all E [GitFetchAll, GitCheckout (targetBranch p),
          GitResetHard (targetBranch p), GitPull (targetBranch p)] s2 = (r3, s3)"
        by (cases "run_all E [GitFetchAll, GitCheckout (targetBranch p),
          GitResetHard (targetBranch p), GitPull (targetBranch p)] s2")
      obtain r4 s4 where c4: "pick_loop E (targetBranch p) (commitsToPick m) s3 = (r4, s4)"
        by (cases "pick_loop E (targetBranch p) (commitsToPick m) s3")
      obtain r5 s5 where c5: "run E (GitPush (targetBranch p)) s4 = (r5, s5)"
        by (cases "run E (GitPush (targetBranch p)) s4")
      have e1: "extends s0 s1" using c1 by (auto split: if_splits dest: run_extends simp: extends_refl)
      have e2: "extends s1 s2" using c2 by (rule chdir_extends)
      have e3: "extends s2 s3" using c3 by (rule run_all_extends)
      have e4: "extends s3 s4" using c4 by (rule pick_loop_extends)
      have e5: "extends s4 s5" using c5 by (rule run_extends)
      have "processJob E jid p s =
          (case (r1, s1) of (Some e, s1) \<Rightarrow> (Some e, s1)
           | (None, s1) \<Rightarrow> (case (r2, s2) of (Some e, s2) \<Rightarrow> (Some e, s2)
             | (None, s2) \<Rightarrow> (case (r3, s3) of (Some e, s3) \<Rightarrow> (Some e, s3)
               | (None, s3) \<Rightarrow> (case (r4, s4) of (Some e, s4) \<Rightarrow> (Some e, s4)
                 | (None, s4) \<Rightarrow> (r5, s5)))))"
        using Inr False c1 c2 c3 c4 c5
        unfolding processJob_def Let_def s0_def [symmetric] W_def [symmetric]
        by (auto split: option.splits)
      with assms have "s' \<in> {s1, s2, s3, s4, s5}"
        by (auto split: option.splits)
      moreover have t1: "extends s s1" using e0 e1 by (rule extends_trans)
      moreover have t2: "extends s s2" using t1 e2 by (rule extends_trans)
      moreover have t3: "extends s s3" using t2 e3 by (rule extends_trans)
      moreover have t4: "extends s s4" using t3 e4 by (rule extends_trans)
      moreover have t5: "extends s s5" using t4 e5 by (rule extends_trans)
      ultimately show ?thesis by auto
    qed
  qed
qed


lemma no_job_idle:
  "getNextJob (queue_of s) = (None, q) \<Longrightarrow> iteration E s = s"
  by (auto simp: iteration_def dest: getNextJob_None)

lemma no_job_loop:
  "getNextJob (queue_of s) = (None, q) \<Longrightarrow> worker_loop n E s = s"
  by (induction n) (auto simp: no_job_idle)

lemma sendWebhook_fields [simp]:
  "queue_of (sendWebhook E jid p st err s) = queue_of s"
  "world_of (sendWebhook E jid p st err s) = world_of s"
  by (auto simp: sendWebhook_def Let_def split: option.splits)

lemma set_status_running_hit:
  "is_running jid q \<Longrightarrow> \<exists>j' \<in> set (set_status jid st err q). job_id j' = jid \<and> job_status j' = st \<and> error_text j' = err"
  unfolding is_running_def using set_status_hit_id by blast

lemma iteration_shape:
  assumes g: "getNextJob (queue_of s) = (Some j, q)"
  shows "\<exists>pre st err wd. iteration E s =
           sendWebhook E (job_id j) (job_params j) st err
             \<lparr>world_of = wd, queue_of = set_status (job_id j) st (if st = failed then err else None) q,
              trace = trace s @ pre @ [Finished (job_id j) st]\<rparr>
         \<and> list_all is_shell pre \<and> (st = completed \<and> err = None \<or> st = failed \<and> err \<noteq> None)"
proof -
  obtain r s1 where p: "processJob E (job_id j) (job_params j) (s\<lparr>queue_of := q\<rparr>) = (r, s1)"
    by (cases "processJob E (job_id j) (job_params j) (s\<lparr>queue_of := q\<rparr>)")
  from processJob_extends [OF p] obtain pre where
    q1: "queue_of s1 = q" and t1: "trace s1 = trace s @ pre" and sh: "list_all is_shell pre"
    by (auto simp: extends_def)
  have run: "is_running (job_id j) q" using g by (rule getNextJob_running)
  show ?thesis
  proof (cases r)
    case None
    have "iteration E s = sendWebhook E (job_id j) (job_params j) completed None
             \<lparr>world_of = world_of s1, queue_of = set_status (job_id j) completed None q,
              trace = trace s @ pre @ [Finished (job_id j) completed]\<rparr>"
      using g p None q1 t1 run by (cases s1) (simp add: iteration_def completeJob_def)
    with sh show ?thesis by (intro exI [of _ pre] exI [of _ completed] exI [of _ None] exI [of _ "world_of s1"]) simp
  next
    case (Some e)
    have "iteration E s = sendWebhook E (job_id j) (job_params j) failed (Some (message e))
             \<lparr>world_of = world_of s1, queue_of = set_status (job_id j) failed (Some (message e)) q,
              trace = trace s @ pre @ [Finished (job_id j) failed]\<rparr>"
      using g p Some q1 t1 run by (cases s1) (simp add: iteration_def job_failed_def failJob_def)
    with sh show ?thesis
      by (intro exI [of _ pre] exI [of _ failed] exI [of _ "Some (message e)"] exI [of _ "world_of s1"]) simp
  qed
qed

lemma git_post_irrelevant: "git (E\<lparr>http_post := h\<rparr>) c wd = git E c wd"
  by (cases c) (simp_all cong: option.case_cong pick_result.case_cong if_cong)

lemma run_post_irrelevant: "run (E\<lparr>http_post := h\<rparr>) c s = run E c s"
  by (simp add: run_def git_post_irrelevant)

lemma run_all_post_irrelevant: "run_all (E\<lparr>http_post := h\<rparr>) cs s = run_all E cs s"
  by (induction cs arbitrary: s) (simp_all add: run_post_irrelevant split: prod.splits option.splits)

lemma pick_loop_post_irrelevant: "pick_loop (E\<lparr>http_post := h\<rparr>) tb cs s = pick_loop E tb cs s"
  by (induction cs arbitrary: s) (simp_all add: run_post_irrelevant split: prod.splits option.splits)

lemma processJob_post_irrelevant: "processJob (E\<lparr>http_post := h\<rparr>) jid p s = processJob E jid p s"
  by (simp add: processJob_def run_post_irrelevant run_all_post_irrelevant pick_loop_post_irrelevant
      del: run_all.simps cong: sum.case_cong prod.case_cong option.case_cong if_cong)

lemma job_failed_fields:
  "queue_of (job_failed (E\<lparr>http_post := h\<rparr>) j e s) = queue_of (job_failed E j e s)"
  "world_of (job_failed (E\<lparr>http_post := h\<rparr>) j e s) = world_of (job_failed E j e s)"
  by (auto simp: job_failed_def split: sum.splits)

lemma iteration_post_irrelevant:
  "queue_of (iteration (E\<lparr>http_post := h\<rparr>) s) = queue_of (iteration E s)"
  "world_of (iteration (E\<lparr>http_post := h\<rparr>) s) = world_of (iteration E s)"
  by (auto simp: iteration_def processJob_post_irrelevant job_failed_fields
      split: prod.splits option.splits sum.splits)

subsection \<open>The worker loop\<close>

text \<open>
  C6. When the worker claims a job whose search finds no merged pull request,
  \<^verbatim>\<open>processJob\<close> returns at once: the job is moved to \<open>completed\<close>, the world (the
  clones, the host, the current directory) is what it was, and the turn runs no command
  besides the \<^verbatim>\<open>gh\<close> query; nothing is fetched, replayed or pushed.
\<close>

theorem zero_changesets_complete:
  assumes "getNextJob (queue_of s) = (Some j, q)"
    and "hub E (repository (job_params j)) (prFilterQuery (job_params j)) = Inr []"
  shows "iteration E s =
           sendWebhook E (job_id j) (job_params j) completed None
             (s\<lparr>queue_of := set_status (job_id j) completed None q,
                trace := trace s @ [Gh (repository (job_params j)) (prFilterQuery (job_params j)),
                                    Finished (job_id j) completed]\<rparr>)
         \<and> world_of (iteration E s) = world_of s
         \<and> (\<exists>j' \<in> set (queue_of (iteration E s)). job_id j' = job_id j \<and> job_status j' = completed)
         \<and> (\<forall>c. Exec c \<in> set (trace (iteration E s)) \<longrightarrow> Exec c \<in> set (trace s))"
proof -
  have run: "is_running (job_id j) q" using assms(1) by (rule getNextJob_running)
  have p: "processJob E (job_id j) (job_params j) (s\<lparr>queue_of := q\<rparr>) =
      (None, s\<lparr>queue_of := q, trace := trace s @ [Gh (repository (job_params j)) (prFilterQuery (job_params j))]\<rparr>)"
    using assms(2) by (simp add: processJob_def)
  have eq: "iteration E s =
           sendWebhook E (job_id j) (job_params j) completed None
             (s\<lparr>queue_of := set_status (job_id j) completed None q,
                trace := trace s @ [Gh (repository (job_params j)) (prFilterQuery (job_params j)),
                                    Finished (job_id j) completed]\<rparr>)"
    using assms(1) p run by (simp add: iteration_def completeJob_def)
  have st: "\<exists>j' \<in> set (queue_of (iteration E s)). job_id j' = job_id j \<and> job_status j' = completed"
    using set_status_running_hit [OF run, of completed None] by (auto simp: eq)
  have tr: "\<forall>c. Exec c \<in> set (trace (iteration E s)) \<longrightarrow> Exec c \<in> set (trace s)"
    unfolding eq by (auto simp: sendWebhook_def Let_def split: option.splits)
  show ?thesis using eq st tr by simp
qed

lemma getNextJob_s_one:
  "getNextJob (queue_of s_one) = (Some (job1\<lparr>job_status := running\<rparr>), [job1\<lparr>job_status := running\<rparr>])"
  by (simp add: s_one_def getNextJob_def oldest_queued_def job1_def)

theorem zero_changesets_complete_witness:
  "world_of (iteration E_none s_one) = world0
   \<and> queue_of (iteration E_none s_one) = [job1\<lparr>job_status := completed\<rparr>]
   \<and> trace (iteration E_none s_one) = [Gh ''org/app'' ''label:backport'', Finished ''job-1'' completed]"
  using zero_changesets_complete [of s_one "job1\<lparr>job_status := running\<rparr>" "[job1\<lparr>job_status := running\<rparr>]" E_none]
    getNextJob_s_one
  by (simp add: E_none_def) (simp add: s_one_def job1_def p_ok_def sendWebhook_def)

text \<open>
  C9. With no queued job, a turn of the loop does nothing at all, and neither do the next
  ones: the branch for this case is empty and \<open>POLL_INTERVAL\<close> is never used, so the
  next poll follows at once.
\<close>

theorem no_wait_when_idle:
  "getNextJob (queue_of s_idle) = (None, queue_of s_idle)
   \<and> iteration E_none s_idle = s_idle
   \<and> worker_loop 1000 E_none s_idle = s_idle"
proof -
  have g: "getNextJob (queue_of s_idle) = (None, queue_of s_idle)"
    by (simp add: s_idle_def getNextJob_def oldest_queued_def job1_def)
  show ?thesis using g no_job_idle [OF g] no_job_loop [OF g] by simp
qed

subsection \<open>The notifier\<close>

text \<open>
  C7. \<^verbatim>\<open>sendWebhook\<close> does nothing without a callback address. With one it dispatches
  a single POST carrying the job, its terminal status, the repository and the error, and
  logs the outcome of the delivery; it returns a state and never an error. What a turn
  of the loop leaves in the queue and in the world does not depend on the delivery, and
  the POST comes after the terminal transition of the job and reports that status.
\<close>

theorem notifier_best_effort:
  "(callbackUrl p = None \<or> callbackUrl p = Some [] \<longrightarrow> sendWebhook E jid p st err s = s)
   \<and> (\<forall>u. callbackUrl p = Some u \<and> u \<noteq> [] \<longrightarrow>
        sendWebhook E jid p st err s =
          s\<lparr>trace := trace s @
             [Log (''[Worker] Sending webhook to: '' @ u),
              Post u \<lparr>payload_jobId = jid, payload_status = st, payload_repository = repository p,
                      payload_error = (if err = Some [] then None else err)\<rparr>,
              Log (case http_post E u \<lparr>payload_jobId = jid, payload_status = st,
                                       payload_repository = repository p,
                                       payload_error = (if err = Some [] then None else err)\<rparr> of
                     None \<Rightarrow> ''[Worker] Webhook sent successfully.''
                   | Some m \<Rightarrow> ''[Worker] Failed to send webhook: '' @ m)]\<rparr>)
   \<and> queue_of (iteration (E\<lparr>http_post := h\<rparr>) s) = queue_of (iteration E s)
   \<and> world_of (iteration (E\<lparr>http_post := h\<rparr>) s) = world_of (iteration E s)
   \<and> (\<forall>j q u. getNextJob (queue_of s) = (Some j, q) \<and> callbackUrl (job_params j) = Some u \<and> u \<noteq> [] \<longrightarrow>
        (\<exists>pre b l. trace (iteration E s) =
             trace s @ pre @ [Finished (job_id j) (payload_status b),
                              Log (''[Worker] Sending webhook to: '' @ u), Post u b, Log l]
           \<and> list_all is_shell pre \<and> payload_jobId b = job_id j
           \<and> (payload_status b = completed \<or> payload_status b = failed)
           \<and> (\<exists>j' \<in> set (queue_of (iteration E s)).
                 job_id j' = job_id j \<and> job_status j' = payload_status b)))"
proof (intro conjI allI impI)
  assume "callbackUrl p = None \<or> callbackUrl p = Some []"
  then show "sendWebhook E jid p st err s = s" by (auto simp: sendWebhook_def)
next
  fix u assume "callbackUrl p = Some u \<and> u \<noteq> []"
  then show "sendWebhook E jid p st err s =
          s\<lparr>trace := trace s @
             [Log (''[Worker] Sending webhook to: '' @ u),
              Post u \<lparr>payload_jobId = jid, payload_status = st, payload_repository = repository p,
                      payload_error = (if err = Some [] then None else err)\<rparr>,
              Log (case http_post E u \<lparr>payload_jobId = jid, payload_status = st,
                                       payload_repository = repository p,
                                       payload_error = (if err = Some [] then None else err)\<rparr> of
                     None \<Rightarrow> ''[Worker] Webhook sent successfully.''
                   | Some m \<Rightarrow> ''[Worker] Failed to send webhook: '' @ m)]\<rparr>"
    by (simp add: sendWebhook_def Let_def)
next
  show "queue_of (iteration (E\<lparr>http_post := h\<rparr>) s) = queue_of (iteration E s)"
    by (rule iteration_post_irrelevant)
next
  show "world_of (iteration (E\<lparr>http_post := h\<rparr>) s) = world_of (iteration E s)"
    by (rule iteration_post_irrelevant)
next
  fix j q u
  assume a: "getNextJob (queue_of s) = (Some j, q) \<and> callbackUrl (job_params j) = Some u \<and> u \<noteq> []"
  then have g: "getNextJob (queue_of s) = (Some j, q)" and cb: "callbackUrl (job_params j) = Some u"
    and u: "u \<noteq> []" by simp_all
  from iteration_shape [OF g, of E] obtain pre st err wd where
    it: "iteration E s = sendWebhook E (job_id j) (job_params j) st err
             \<lparr>world_of = wd, queue_of = set_status (job_id j) st (if st = failed then err else None) q,
              trace = trace s @ pre @ [Finished (job_id j) st]\<rparr>"
    and sh: "list_all is_shell pre" and st: "st = completed \<and> err = None \<or> st = failed \<and> err \<noteq> None"
    by blast
  define b where "b = \<lparr>payload_jobId = job_id j, payload_status = st,
      payload_repository = repository (job_params j),
      payload_error = (if err = Some [] then None else err)\<rparr>"
  define l where "l = (case http_post E u b of
                     None \<Rightarrow> ''[Worker] Webhook sent successfully.''
                   | Some m \<Rightarrow> ''[Worker] Failed to send webhook: '' @ m)"
  have tr: "trace (iteration E s) = trace s @ pre @ [Finished (job_id j) (payload_status b),
                              Log (''[Worker] Sending webhook to: '' @ u), Post u b, Log l]"
    unfolding it b_def l_def using cb u by (simp add: sendWebhook_def Let_def)
  have run: "is_running (job_id j) q" using g by (rule getNextJob_running)
  have qu: "\<exists>j' \<in> set (queue_of (iteration E s)). job_id j' = job_id j \<and> job_status j' = payload_status b"
    unfolding it b_def
    using set_status_running_hit [OF run, of st "if st = failed then err else None"] by auto
  show "\<exists>pre b l. trace (iteration E s) =
             trace s @ pre @ [Finished (job_id j) (payload_status b),
                              Log (''[Worker] Sending webhook to: '' @ u), Post u b, Log l]
           \<and> list_all is_shell pre \<and> payload_jobId b = job_id j
           \<and> (payload_status b = completed \<or> payload_status b = failed)
           \<and> (\<exists>j' \<in> set (queue_of (iteration E s)).
                 job_id j' = job_id j \<and> job_status j' = payload_status b)"
    using tr sh qu st by (intro exI [of _ pre] exI [of _ b] exI [of _ l]) (auto simp: b_def)
qed

lemma getNextJob_s_two:
  "getNextJob (queue_of s_two) = (Some (job2\<lparr>job_status := running\<rparr>), [job2\<lparr>job_status := running\<rparr>])"
  by (simp add: s_two_def getNextJob_def oldest_queued_def job2_def)

theorem notifier_best_effort_witness:
  "sendWebhook E_down ''job-1'' p_ok failed (Some ''boom'') s_one = s_one
   \<and> trace (sendWebhook E_down ''job-2'' p_cb failed (Some ''boom'') s_two) =
       [Log ''[Worker] Sending webhook to: https://ci.example/hook'',
        Post ''https://ci.example/hook''
          \<lparr>payload_jobId = ''job-2'', payload_status = failed, payload_repository = ''org/app'',
           payload_error = Some ''boom''\<rparr>,
        Log ''[Worker] Failed to send webhook: connect ECONNREFUSED'']
   \<and> queue_of (iteration E_down s_two) = queue_of (iteration E_none s_two)
   \<and> (\<exists>pre b l. trace (iteration E_down s_two) =
         trace s_two @ pre @ [Finished ''job-2'' (payload_status b),
                  Log (''[Worker] Sending webhook to: '' @ ''https://ci.example/hook''),
                  Post ''https://ci.example/hook'' b, Log l]
         \<and> (\<exists>j' \<in> set (queue_of (iteration E_down s_two)).
                 job_id j' = ''job-2'' \<and> job_status j' = payload_status b))"
proof -
  note t = notifier_best_effort [of p_ok E_down "''job-1''" failed "Some ''boom''" s_one "http_post E_none"]
  note t2 = notifier_best_effort [of p_cb E_down "''job-2''" failed "Some ''boom''" s_two "http_post E_none"]
  have e: "E_down\<lparr>http_post := http_post E_none\<rparr> = E_none"
    by (simp add: E_down_def E_none_def)
  have c1: "sendWebhook E_down ''job-1'' p_ok failed (Some ''boom'') s_one = s_one"
    using t by (simp add: p_ok_def)
  have c2: "trace (sendWebhook E_down ''job-2'' p_cb failed (Some ''boom'') s_two) =
       [Log ''[Worker] Sending webhook to: https://ci.example/hook'',
        Post ''https://ci.example/hook''
          \<lparr>payload_jobId = ''job-2'', payload_status = failed, payload_repository = ''org/app'',
           payload_error = Some ''boom''\<rparr>,
        Log ''[Worker] Failed to send webhook: connect ECONNREFUSED'']"
    using t2 by (simp add: p_cb_def p_ok_def s_two_def E_down_def)
  have c3: "queue_of (iteration E_down s_two) = queue_of (iteration E_none s_two)"
    using t2 e by simp
  have c4: "\<exists>pre b l. trace (iteration E_down s_two) =
         trace s_two @ pre @ [Finished ''job-2'' (payload_status b),
                  Log (''[Worker] Sending webhook to: '' @ ''https://ci.example/hook''),
                  Post ''https://ci.example/hook'' b, Log l]
         \<and> (\<exists>j' \<in> set (queue_of (iteration E_down s_two)).
                 job_id j' = ''job-2'' \<and> job_status j' = payload_status b)"
  proof -
    from t2 have "\<forall>j q u. getNextJob (queue_of s_two) = (Some j, q) \<and> callbackUrl (job_params j) = Some u \<and> u \<noteq> [] \<longrightarrow>
        (\<exists>pre b l. trace (iteration E_down s_two) =
             trace s_two @ pre @ [Finished (job_id j) (payload_status b),
                              Log (''[Worker] Sending webhook to: '' @ u), Post u b, Log l]
           \<and> list_all is_shell pre \<and> payload_jobId b = job_id j
           \<and> (payload_status b = completed \<or> payload_status b = failed)
           \<and> (\<exists>j' \<in> set (queue_of (iteration E_down s_two)).
                 job_id j' = job_id j \<and> job_status j' = payload_status b))" by blast
    from this [rule_format, of "job2\<lparr>job_status := running\<rparr>" "[job2\<lparr>job_status := running\<rparr>]" "''https://ci.example/hook''"]
      getNextJob_s_two
    show ?thesis by (auto simp: job2_def p_cb_def)
  qed
  show ?thesis using c1 c2 c3 c4 by blast
qed

subsection \<open>The resolver\<close>

lemmas eval_defs = commitsToPick_def WORKSPACE_DIR_def path_join_def run_def chdir_def
  put_clone_def branch_contains_def set_ref_def suffix_Cons grep_def

lemma examined_append: "examined (xs @ ys) = examined xs @ examined ys"
  by (induction xs rule: examined.induct) simp_all

lemma run_examined:
  "run E c s = (r, s') \<Longrightarrow>
   examined (trace s') = examined (trace s) @ (case c of GitBranchContains x b \<Rightarrow> [x] | _ \<Rightarrow> [])"
  by (cases c) (auto simp: run_def examined_append split: prod.splits)

lemma run_all_examined:
  "run_all E cs s = (r, s') \<Longrightarrow> \<forall>c \<in> set cs. \<forall>x b. c \<noteq> GitBranchContains x b \<Longrightarrow>
   examined (trace s') = examined (trace s)"
proof (induction cs arbitrary: s)
  case Nil
  then show ?case by simp
next
  case (Cons c cs)
  obtain r1 s1 where r: "run E c s = (r1, s1)" by (cases "run E c s")
  have "examined (trace s1) = examined (trace s)"
    using run_examined [OF r] Cons.prems(2) by (cases c) auto
  with Cons r show ?case by (cases r1) auto
qed

lemma chdir_trace: "chdir d s = (r, s') \<Longrightarrow> trace s' = trace s"
  by (auto simp: chdir_def split: if_splits)

lemma pick_loop_examined:
  "pick_loop E tb cs s = (r, s') \<Longrightarrow>
   \<exists>k \<le> length cs. examined (trace s') = examined (trace s) @ take k cs \<and> (r = None \<longrightarrow> k = length cs)"
proof (induction cs arbitrary: s)
  case Nil
  then show ?case by simp
next
  case (Cons c cs)
  obtain r1 s1 where r1: "run E (GitBranchContains c tb) s = (r1, s1)"
    by (cases "run E (GitBranchContains c tb) s")
  obtain r2 s2 where r2: "run E (GitCherryPick c) s1 = (r2, s2)"
    by (cases "run E (GitCherryPick c) s1")
  have e1: "examined (trace s1) = examined (trace s) @ [c]" using run_examined [OF r1] by simp
  have e2: "examined (trace s2) = examined (trace s) @ [c]" using run_examined [OF r2] e1 by simp
  consider (skip) "r1 = None" | (fail) e where "r1 \<noteq> None" "r2 = Some e" | (picked) "r1 \<noteq> None" "r2 = None"
    by (cases r2) auto
  then show ?case
  proof cases
    case skip
    with Cons.prems r1 have "pick_loop E tb cs s1 = (r, s')" by simp
    from Cons.IH [OF this] obtain k where "k \<le> length cs"
      "examined (trace s') = examined (trace s1) @ take k cs" "r = None \<longrightarrow> k = length cs" by blast
    with e1 show ?thesis by (intro exI [of _ "Suc k"]) simp
  next
    case fail
    with Cons.prems r1 r2 have "r = Some e" "s' = s2" by (auto split: option.splits)
    with e2 show ?thesis by (intro exI [of _ "Suc 0"]) simp
  next
    case picked
    with Cons.prems r1 r2 have "pick_loop E tb cs s2 = (r, s')" by (auto split: option.splits)
    from Cons.IH [OF this] obtain k where "k \<le> length cs"
      "examined (trace s') = examined (trace s2) @ take k cs" "r = None \<longrightarrow> k = length cs" by blast
    with e2 show ?thesis by (intro exI [of _ "Suc k"]) simp
  qed
qed

lemma processJob_examined:
  assumes h: "hub E (repository p) (prFilterQuery p) = Inr prs"
    and pj: "processJob E jid p s = (r, s')"
  shows "\<exists>k \<le> length prs. examined (trace s') = examined (trace s) @ take k (map mergeCommit prs)
           \<and> (r = None \<longrightarrow> k = length prs)"
proof -
  define s0 where "s0 = s\<lparr>trace := trace s @ [Gh (repository p) (prFilterQuery p)]\<rparr>"
  define W where "W = path_join WORKSPACE_DIR (repository p)"
  have e0: "examined (trace s0) = examined (trace s)" by (simp add: s0_def examined_append)
  show ?thesis
  proof (cases "prs = []")
    case True
    with h pj have "s' = s0" by (simp add: processJob_def Let_def s0_def)
    with e0 True show ?thesis by simp
  next
    case False
    obtain r1 s1 where c1: "(if clones (world_of s0) W = None
        then run E (GitClone (targetBranch p) (repository p) W) s0 else (None, s0)) = (r1, s1)"
      by (cases "if clones (world_of s0) W = None
        then run E (GitClone (targetBranch p) (repository p) W) s0 else (None, s0)")
    obtain r2 s2 where c2: "chdir W s1 = (r2, s2)" by (cases "chdir W s1")
    obtain r3 s3 where c3: "run_all E [GitFetchAll, GitCheckout (targetBranch p),
        GitResetHard (targetBranch p), GitPull (targetBranch p)] s2 = (r3, s3)"
      by (cases "run_all E [GitFetchAll, GitCheckout (targetBranch p),
        GitResetHard (targetBranch p), GitPull (targetBranch p)] s2")
    obtain r4 s4 where c4: "pick_loop E (targetBranch p) (commitsToPick prs) s3 = (r4, s4)"
      by (cases "pick_loop E (targetBranch p) (commitsToPick prs) s3")
    obtain r5 s5 where c5: "run E (GitPush (targetBranch p)) s4 = (r5, s5)"
      by (cases "run E (GitPush (targetBranch p)) s4")
    have e1: "examined (trace s1) = examined (trace s)"
      using c1 e0 by (auto split: if_splits dest: run_examined)
    have e2: "examined (trace s2) = examined (trace s)" using chdir_trace [OF c2] e1 by simp
    have e3: "examined (trace s3) = examined (trace s)"
      using run_all_examined [OF c3] e2 by simp
    from pick_loop_examined [OF c4] obtain k where k: "k \<le> length prs"
      "examined (trace s4) = examined (trace s) @ take k (map mergeCommit prs)"
      "r4 = None \<longrightarrow> k = length prs"
      unfolding e3 by (auto simp: commitsToPick_def)
    have e5: "examined (trace s5) = examined (trace s4)" using run_examined [OF c5] by simp
    have eq: "processJob E jid p s =
        (case (r1, s1) of (Some e, s1) \<Rightarrow> (Some e, s1)
         | (None, s1) \<Rightarrow> (case (r2, s2) of (Some e, s2) \<Rightarrow> (Some e, s2)
           | (None, s2) \<Rightarrow> (case (r3, s3) of (Some e, s3) \<Rightarrow> (Some e, s3)
             | (None, s3) \<Rightarrow> (case (r4, s4) of (Some e, s4) \<Rightarrow> (Some e, s4)
               | (None, s4) \<Rightarrow> (r5, s5)))))"
      using h False c1 c2 c3 c4 c5
      unfolding processJob_def Let_def s0_def [symmetric] W_def [symmetric]
      by (auto split: option.splits)
    consider (a) "r1 \<noteq> None" "s' = s1" "r \<noteq> None"
      | (b) "r2 \<noteq> None" "s' = s2" "r \<noteq> None"
      | (c) "r3 \<noteq> None" "s' = s3" "r \<noteq> None"
      | (d) "r4 \<noteq> None" "s' = s4" "r \<noteq> None"
      | (e) "r4 = None" "s' = s5"
      using pj unfolding eq by (auto split: option.splits)
    then show ?thesis
    proof cases
      case a with e1 show ?thesis by (intro exI [of _ 0]) auto
    next
      case b with e2 show ?thesis by (intro exI [of _ 0]) auto
    next
      case c with e3 show ?thesis by (intro exI [of _ 0]) auto
    next
      case d with k show ?thesis by (intro exI [of _ k]) auto
    next
      case e with k e5 show ?thesis by (intro exI [of _ k]) auto
    qed
  qed
qed

lemma git_hub_irrelevant: "git (E\<lparr>hub := h\<rparr>) c wd = git E c wd"
  by (cases c) (simp_all cong: option.case_cong pick_result.case_cong if_cong)

lemma run_hub_irrelevant: "run (E\<lparr>hub := h\<rparr>) c s = run E c s"
  by (simp add: run_def git_hub_irrelevant)

lemma run_all_hub_irrelevant: "run_all (E\<lparr>hub := h\<rparr>) cs s = run_all E cs s"
  by (induction cs arbitrary: s) (simp_all add: run_hub_irrelevant split: prod.splits option.splits)

lemma pick_loop_hub_irrelevant: "pick_loop (E\<lparr>hub := h\<rparr>) tb cs s = pick_loop E tb cs s"
  by (induction cs arbitrary: s) (simp_all add: run_hub_irrelevant split: prod.splits option.splits)

lemma commitsToPick_renumber: "commitsToPick (renumber f prs) = commitsToPick prs"
  by (simp add: commitsToPick_def renumber_def comp_def)

lemma processJob_renumber:
  "processJob (E\<lparr>hub := \<lambda>r q. map_sum id (renumber f) (hub E r q)\<rparr>) jid p s = processJob E jid p s"
proof (cases "hub E (repository p) (prFilterQuery p)")
  case (Inl err)
  then show ?thesis by (simp add: processJob_def)
next
  case (Inr prs)
  have e: "renumber f prs = [] \<longleftrightarrow> prs = []" by (simp add: renumber_def)
  show ?thesis
    unfolding processJob_def Let_def
    by (simp add: Inr e commitsToPick_renumber run_hub_irrelevant run_all_hub_irrelevant
        pick_loop_hub_irrelevant del: run_all.simps
        cong: prod.case_cong option.case_cong if_cong)
qed

lemma processJob_tie: "processJob E_tie ''job-1'' p_ok s_scn = (None, s_tie_done)"
  unfolding processJob_def Let_def
  by (simp add: E_tie_def prs_tie_def p_ok_def s_scn_def world_scn_def clone_scn_def WS_def
      s_tie_done_def eval_defs)

text \<open>
  C3. The replay loop examines the merge commits of the listing in exactly the order of
  the listing, from the first on and all of them when the job succeeds: the worker asks
  the query for ascending merge time and does not order anything itself. So the replay is
  ascending by merge timestamp whenever the listing is. The numbers of the pull requests
  play no part: with the pull requests of the listing renumbered the job runs the same.
\<close>

theorem replay_order:
  assumes "hub E (repository p) (prFilterQuery p) = Inr prs"
    and "processJob E jid p s = (r, s')"
  shows "(\<exists>k \<le> length prs.
            examined (trace s') = examined (trace s) @ map mergeCommit (take k prs)
            \<and> (r = None \<longrightarrow> k = length prs)
            \<and> (sorted (map mergedAt prs) \<longrightarrow> sorted (map mergedAt (take k prs))))
         \<and> processJob (E\<lparr>hub := \<lambda>r q. map_sum id (renumber f) (hub E r q)\<rparr>) jid p s =
             processJob E jid p s"
proof -
  from processJob_examined [OF assms] obtain k where k: "k \<le> length prs"
    "examined (trace s') = examined (trace s) @ take k (map mergeCommit prs)"
    "r = None \<longrightarrow> k = length prs" by blast
  have "sorted (map mergedAt prs) \<longrightarrow> sorted (map mergedAt (take k prs))"
    by (simp add: take_map [symmetric] sorted_wrt_take del: take_map)
  with k have "\<exists>k \<le> length prs.
            examined (trace s') = examined (trace s) @ map mergeCommit (take k prs)
            \<and> (r = None \<longrightarrow> k = length prs)
            \<and> (sorted (map mergedAt prs) \<longrightarrow> sorted (map mergedAt (take k prs)))"
    by (intro exI [of _ k]) (simp add: take_map)
  then show ?thesis using processJob_renumber by blast
qed

theorem replay_order_witness:
  "\<exists>k \<le> length prs_tie.
      examined (trace s_tie_done) = examined (trace s_scn) @ map mergeCommit (take k prs_tie)
      \<and> k = length prs_tie \<and> sorted (map mergedAt (take k prs_tie))"
proof -
  have h: "hub E_tie (repository p_ok) (prFilterQuery p_ok) = Inr prs_tie" by (simp add: E_tie_def)
  have so: "sorted (map mergedAt prs_tie)" by (simp add: prs_tie_def)
  from replay_order [OF h processJob_tie, of id] so show ?thesis by auto
qed

text \<open>
  C3, equal merge times: of two pull requests merged at the same time and listed with the
  one numbered 2 first, the commit of that one is replayed first, where the specification
  asks for the one numbered 1.
\<close>

theorem tie_order_counterexample:
  "hub E_tie ''org/app'' ''label:backport'' = Inr prs_tie
   \<and> processJob E_tie ''job-1'' p_ok s_scn = (None, s_tie_done)
   \<and> examined (trace s_tie_done) = [''c_B'', ''c_A'']
   \<and> spec_replay prs_tie = [''c_A'', ''c_B'']"
proof -
  have "examined (trace s_tie_done) = [''c_B'', ''c_A'']" by (simp add: s_tie_done_def)
  moreover have "spec_replay prs_tie = [''c_A'', ''c_B'']"
    by (simp add: spec_replay_def prs_tie_def)
  ultimately show ?thesis using processJob_tie by (simp add: E_tie_def)
qed




subsection \<open>The replay loop\<close>

lemma branch_line:
  assumes "(b, cs) \<in> set (heads w)" and "c \<in> set cs"
  shows "(if b = HEAD w then ''* '' else ''  '') @ b \<in> set (branch_contains w c)"
  using assms unfolding branch_contains_def by force

lemma match_here_append: "match_here pat (pat @ l)"
  by (induction pat) simp_all

lemma match_line_append: "match_line pat (pre @ pat @ l)"
proof (induction pre)
  case Nil
  show ?case by (cases "pat @ l") (simp_all add: match_here_append, metis match_here_append)
next
  case (Cons c pre)
  then show ?case by simp
qed

lemma sublist_match_line: "sublist pat l \<Longrightarrow> match_line pat l"
  by (auto simp: sublist_def match_line_append)

lemma grep_branch:
  assumes "(b, cs) \<in> set (heads w)" and "c \<in> set cs" and "sublist tb b"
  shows "grep tb (branch_contains w c)"
proof -
  let ?l = "(if b = HEAD w then ''* '' else ''  '') @ b"
  have "sublist b ?l" by (rule sublist_append_leftI)
  with assms(3) have "sublist tb ?l" by (rule sublist_order.order.trans)
  then have "match_line tb ?l" by (rule sublist_match_line)
  with branch_line [OF assms(1,2)] show ?thesis unfolding grep_def by blast
qed

lemma skip_check:
  assumes "clones (world_of s) (cwd (world_of s)) = Some w"
    and "(b, cs) \<in> set (heads w)" and "c \<in> set cs" and "sublist tb b"
  shows "run E (GitBranchContains c tb) s = (None, s\<lparr>trace := trace s @ [Exec (GitBranchContains c tb)]\<rparr>)"
  using assms(1) grep_branch [OF assms(2-4)] by (simp add: run_def)

text \<open>
  C10. The skip check is a substring test on the lines of \<^verbatim>\<open>git branch --contains\<close>:
  a commit held by any local branch whose name contains the name of the target branch is
  skipped, with no cherry-pick and no change to the world, whether or not the target
  branch itself holds it.
\<close>

theorem skip_by_branch_name:
  assumes "clones (world_of s) (cwd (world_of s)) = Some w"
    and "(b, cs) \<in> set (heads w)" and "c \<in> set cs" and "sublist tb b"
  shows "pick_loop E tb (c # rest) s =
           pick_loop E tb rest (s\<lparr>trace := trace s @ [Exec (GitBranchContains c tb)]\<rparr>)"
  using skip_check [OF assms] by simp

theorem skip_by_branch_name_witness:
  "pick_loop E_none ''release'' [''x1''] s_branches =
     (None, s_branches\<lparr>trace := [Exec (GitBranchContains ''x1'' ''release'')]\<rparr>)
   \<and> map_of (heads ws_two) ''release'' = Some [''r1'', ''r0''] \<and> ''x1'' \<notin> set [''r1'', ''r0'']"
proof -
  have "sublist ''release'' (''release'' @ ''-old'')" by (rule sublist_append_rightI)
  then have s: "sublist ''release'' ''release-old''" by simp
  have c: "clones (world_of s_branches) (cwd (world_of s_branches)) = Some ws_two"
    by (simp add: s_branches_def)
  have h: "(''release-old'', [''x1'', ''r0'']) \<in> set (heads ws_two)" by (simp add: ws_two_def)
  have "pick_loop E_none ''release'' [''x1''] s_branches =
     (None, s_branches\<lparr>trace := [Exec (GitBranchContains ''x1'' ''release'')]\<rparr>)"
    using skip_by_branch_name [OF c h _ s, of "''x1''" E_none "[]"] by (simp add: s_branches_def)
  then show ?thesis by (simp add: ws_two_def)
qed

lemma skip_all:
  assumes "clones (world_of s) (cwd (world_of s)) = Some w"
    and "map_of (heads w) tb = Some cs" and "set commits \<subseteq> set cs"
  shows "pick_loop E tb commits s =
           (None, s\<lparr>trace := trace s @ map (\<lambda>c. Exec (GitBranchContains c tb)) commits\<rparr>)"
  using assms
proof (induction commits arbitrary: s)
  case Nil
  then show ?case by simp
next
  case (Cons c commits)
  let ?s1 = "s\<lparr>trace := trace s @ [Exec (GitBranchContains c tb)]\<rparr>"
  have m: "(tb, cs) \<in> set (heads w)" using Cons.prems(2) by (rule map_of_SomeD)
  have c: "c \<in> set cs" using Cons.prems(3) by simp
  have step: "pick_loop E tb (c # commits) s = pick_loop E tb commits ?s1"
    using skip_check [OF Cons.prems(1) m c sublist_order.order.refl] by simp
  have "pick_loop E tb commits ?s1 =
      (None, ?s1\<lparr>trace := trace ?s1 @ map (\<lambda>c. Exec (GitBranchContains c tb)) commits\<rparr>)"
    using Cons.prems by (intro Cons.IH) simp_all
  with step show ?case by simp
qed

lemma held_set_head:
  "map_of hs b = Some cs \<Longrightarrow> n \<noteq> c \<Longrightarrow>
   map fst (filter (\<lambda>(b', cs'). c \<in> set cs') (set_head b (n # cs) hs)) =
   map fst (filter (\<lambda>(b', cs'). c \<in> set cs') hs)"
  by (induction hs) (auto split: if_splits)

lemma branch_contains_fst:
  "branch_contains w c =
     map (\<lambda>b. (if b = HEAD w then ''* '' else ''  '') @ b)
       (map fst (filter (\<lambda>(b, cs). c \<in> set cs) (heads w)))"
  by (simp add: branch_contains_def case_prod_beta comp_def)

lemma branch_contains_pick:
  assumes "map_of (heads w) (HEAD w) = Some cs" and "n \<noteq> c"
  shows "branch_contains (w\<lparr>heads := set_head (HEAD w) (n # cs) (heads w)\<rparr>) c = branch_contains w c"
  unfolding branch_contains_fst using held_set_head [OF assms] by simp

lemma pick_keeps_check:
  assumes cl: "clones (world_of s) (cwd (world_of s)) = Some w"
    and pk: "picking w = None"
    and hd: "map_of (heads w) (HEAD w) = Some hist"
    and ap: "replay E c hist = Applied n" and ne: "n \<noteq> c"
  shows "fst (run E (GitCherryPick c) s) = None
         \<and> fst (run E (GitBranchContains c tb) (snd (run E (GitCherryPick c) s))) =
             fst (run E (GitBranchContains c tb) s)"
  using cl pk hd ap branch_contains_pick [OF hd ne]
  by (simp add: run_def put_clone_def)

lemma not_skipped:
  assumes "clones (world_of s) (cwd (world_of s)) = Some w"
    and "\<not> grep tb (branch_contains w c)"
  shows "pick_loop E tb (c # rest) s =
           (case run E (GitCherryPick c) (s\<lparr>trace := trace s @ [Exec (GitBranchContains c tb)]\<rparr>) of
              (Some e, s2) \<Rightarrow> (Some e, s2)
            | (None, s2) \<Rightarrow> pick_loop E tb rest s2)"
proof -
  have "run E (GitBranchContains c tb) s =
      (Some (Error (''Command failed: '' @ command (GitBranchContains c tb))),
       s\<lparr>trace := trace s @ [Exec (GitBranchContains c tb)]\<rparr>)"
    using assms by (simp add: run_def)
  then show ?thesis by (simp split: prod.splits option.splits)
qed

text \<open>
  C2. A commit reachable from the tip of the local target branch is skipped without error
  and not replayed, and a job all of whose commits are reachable from that tip replays
  nothing and changes nothing. A commit that no line of the skip check matches is not
  skipped: its cherry-pick is run. And a cherry-pick that puts the commit on the branch
  under another identifier leaves the outcome of the commit's skip check as it was.
\<close>

theorem skip_reachable:
  assumes "clones (world_of s) (cwd (world_of s)) = Some w"
    and "map_of (heads w) tb = Some cs"
  shows "(c \<in> set cs \<longrightarrow>
            pick_loop E tb (c # rest) s =
              pick_loop E tb rest (s\<lparr>trace := trace s @ [Exec (GitBranchContains c tb)]\<rparr>))
         \<and> (set commits \<subseteq> set cs \<longrightarrow>
            pick_loop E tb commits s =
              (None, s\<lparr>trace := trace s @ map (\<lambda>c. Exec (GitBranchContains c tb)) commits\<rparr>))
         \<and> (\<not> grep tb (branch_contains w c) \<longrightarrow>
            pick_loop E tb (c # rest) s =
              (case run E (GitCherryPick c) (s\<lparr>trace := trace s @ [Exec (GitBranchContains c tb)]\<rparr>) of
                 (Some e, s2) \<Rightarrow> (Some e, s2)
               | (None, s2) \<Rightarrow> pick_loop E tb rest s2))
         \<and> (\<forall>hist n. picking w = None \<and> map_of (heads w) (HEAD w) = Some hist
                     \<and> replay E c hist = Applied n \<and> n \<noteq> c \<longrightarrow>
              fst (run E (GitCherryPick c) s) = None
              \<and> fst (run E (GitBranchContains c tb) (snd (run E (GitCherryPick c) s))) =
                  fst (run E (GitBranchContains c tb) s))"
proof (intro conjI impI allI)
  assume c: "c \<in> set cs"
  have m: "(tb, cs) \<in> set (heads w)" using assms(2) by (rule map_of_SomeD)
  show "pick_loop E tb (c # rest) s =
              pick_loop E tb rest (s\<lparr>trace := trace s @ [Exec (GitBranchContains c tb)]\<rparr>)"
    using skip_check [OF assms(1) m c sublist_order.order.refl] by simp
next
  assume "set commits \<subseteq> set cs"
  with assms show "pick_loop E tb commits s =
              (None, s\<lparr>trace := trace s @ map (\<lambda>c. Exec (GitBranchContains c tb)) commits\<rparr>)"
    by (rule skip_all)
next
  assume "\<not> grep tb (branch_contains w c)"
  with assms(1) show "pick_loop E tb (c # rest) s =
              (case run E (GitCherryPick c) (s\<lparr>trace := trace s @ [Exec (GitBranchContains c tb)]\<rparr>) of
                 (Some e, s2) \<Rightarrow> (Some e, s2)
               | (None, s2) \<Rightarrow> pick_loop E tb rest s2)"
    by (rule not_skipped)
next
  fix hist n
  assume a: "picking w = None \<and> map_of (heads w) (HEAD w) = Some hist
             \<and> replay E c hist = Applied n \<and> n \<noteq> c"
  then have "picking w = None" "map_of (heads w) (HEAD w) = Some hist"
    "replay E c hist = Applied n" "n \<noteq> c" by simp_all
  from pick_keeps_check [OF assms(1) this]
  show "fst (run E (GitCherryPick c) s) = None" 
    and "fst (run E (GitBranchContains c tb) (snd (run E (GitCherryPick c) s))) =
                  fst (run E (GitBranchContains c tb) s)" by simp_all
qed

theorem skip_reachable_witness:
  "pick_loop E_none ''release'' [''r0'', ''r1''] s_branches =
     (None, s_branches\<lparr>trace := [Exec (GitBranchContains ''r0'' ''release''),
                                  Exec (GitBranchContains ''r1'' ''release'')]\<rparr>)
   \<and> pick_loop E_none ''release'' [''r0''] s_branches =
       pick_loop E_none ''release'' [] (s_branches\<lparr>trace := [Exec (GitBranchContains ''r0'' ''release'')]\<rparr>)
   \<and> pick_loop E_none ''release'' [''zz''] s_branches =
       (Some (Error ''Command failed: git cherry-pick zz''),
        s_branches\<lparr>trace := [Exec (GitBranchContains ''zz'' ''release''),
                               Exec (GitCherryPick ''zz'')]\<rparr>)
   \<and> fst (run E_tie (GitCherryPick ''zz'') s_branches) = None
   \<and> fst (run E_tie (GitBranchContains ''zz'' ''release'')
             (snd (run E_tie (GitCherryPick ''zz'') s_branches))) =
       Some (Error ''Command failed: git branch --contains zz | grep release'')"
proof -
  have c: "clones (world_of s_branches) (cwd (world_of s_branches)) = Some ws_two"
    by (simp add: s_branches_def)
  have h: "map_of (heads ws_two) ''release'' = Some [''r1'', ''r0'']" by (simp add: ws_two_def)
  note t = skip_reachable [OF c h, of "''r0''" E_none "[]" "[''r0'', ''r1'']"]
  note u = skip_reachable [OF c h, of "''zz''" E_none "[]" "[]"]
  note v = skip_reachable [OF c h, of "''zz''" E_tie "[]" "[]"]
  have a: "pick_loop E_none ''release'' [''r0'', ''r1''] s_branches =
      (None, s_branches\<lparr>trace := trace s_branches @
         map (\<lambda>c. Exec (GitBranchContains c ''release'')) [''r0'', ''r1'']\<rparr>)"
    by (rule t [THEN conjunct2, THEN conjunct1, THEN mp]) simp
  have b: "pick_loop E_none ''release'' [''r0''] s_branches =
       pick_loop E_none ''release'' [] (s_branches\<lparr>trace := trace s_branches @ [Exec (GitBranchContains ''r0'' ''release'')]\<rparr>)"
    by (rule t [THEN conjunct1, THEN mp]) simp
  have ng: "\<not> grep ''release'' (branch_contains ws_two ''zz'')"
    by (simp add: grep_def branch_contains_def ws_two_def)
  have d: "pick_loop E_none ''release'' [''zz''] s_branches =
       (case run E_none (GitCherryPick ''zz'')
               (s_branches\<lparr>trace := trace s_branches @ [Exec (GitBranchContains ''zz'' ''release'')]\<rparr>) of
          (Some e, s2) \<Rightarrow> (Some e, s2)
        | (None, s2) \<Rightarrow> pick_loop E_none ''release'' [] s2)"
    by (rule u [THEN conjunct2, THEN conjunct2, THEN conjunct1, THEN mp]) (rule ng)
  have d': "pick_loop E_none ''release'' [''zz''] s_branches =
       (Some (Error ''Command failed: git cherry-pick zz''),
        s_branches\<lparr>trace := [Exec (GitBranchContains ''zz'' ''release''),
                               Exec (GitCherryPick ''zz'')]\<rparr>)"
    unfolding d by (simp add: run_def s_branches_def ws_two_def E_none_def)
  have e0: "picking ws_two = None \<and> map_of (heads ws_two) (HEAD ws_two) = Some [''r1'', ''r0'']
      \<and> replay E_tie ''zz'' [''r1'', ''r0''] = Applied ''zz*'' \<and> ''zz*'' \<noteq> ''zz''"
    by (simp add: ws_two_def E_tie_def)
  from v [THEN conjunct2, THEN conjunct2, THEN conjunct2, rule_format, OF e0]
  have e: "fst (run E_tie (GitCherryPick ''zz'') s_branches) = None"
    "fst (run E_tie (GitBranchContains ''zz'' ''release'')
             (snd (run E_tie (GitCherryPick ''zz'') s_branches))) =
       fst (run E_tie (GitBranchContains ''zz'' ''release'') s_branches)" by simp_all
  have f: "fst (run E_tie (GitBranchContains ''zz'' ''release'') s_branches) =
       Some (Error ''Command failed: git branch --contains zz | grep release'')"
    using ng by (simp add: run_def s_branches_def)
  have tr: "trace s_branches = []" by (simp add: s_branches_def)
  show ?thesis using a b d' e f unfolding tr by (simp del: pick_loop.simps)
qed

text \<open>
  C2, running a job again: the job succeeds and pushes two commits; the same job run
  again succeeds again, runs both cherry-picks again and puts two more commits on the
  branch.
\<close>

theorem rerun_applies_again:
  "processJob E_rev ''job-1'' p_ok (s_rev ''/'' ''main'' [''r1'', ''r0''] []) =
     (None, s_rev WS ''release/2.1'' [''c_R@c_A@r1'', ''c_A@r1'', ''r1'', ''r0''] cmds_rev)
   \<and> processJob E_rev ''job-2'' p_ok
        (s_rev WS ''release/2.1'' [''c_R@c_A@r1'', ''c_A@r1'', ''r1'', ''r0''] cmds_rev) =
     (None, s_rev WS ''release/2.1''
              [''c_R@c_A@c_R@c_A@r1'', ''c_A@c_R@c_A@r1'', ''c_R@c_A@r1'', ''c_A@r1'', ''r1'', ''r0'']
              (cmds_rev @ cmds_rev))
   \<and> Exec (GitCherryPick ''c_A'') \<in> set cmds_rev \<and> Exec (GitCherryPick ''c_R'') \<in> set cmds_rev"
proof -
  have 1: "processJob E_rev ''job-1'' p_ok (s_rev ''/'' ''main'' [''r1'', ''r0''] []) =
     (None, s_rev WS ''release/2.1'' [''c_R@c_A@r1'', ''c_A@r1'', ''r1'', ''r0''] cmds_rev)"
    unfolding processJob_def Let_def
    by (simp add: E_rev_def prs_rev_def p_ok_def s_rev_def WS_def cmds_rev_def
          eval_defs)
  have 2: "processJob E_rev ''job-2'' p_ok
        (s_rev WS ''release/2.1'' [''c_R@c_A@r1'', ''c_A@r1'', ''r1'', ''r0''] cmds_rev) =
     (None, s_rev WS ''release/2.1''
              [''c_R@c_A@c_R@c_A@r1'', ''c_A@c_R@c_A@r1'', ''c_R@c_A@r1'', ''c_A@r1'', ''r1'', ''r0'']
              (cmds_rev @ cmds_rev))"
    unfolding processJob_def Let_def
    by (simp add: E_rev_def prs_rev_def p_ok_def s_rev_def WS_def cmds_rev_def
          eval_defs)
  have 3: "Exec (GitCherryPick ''c_A'') \<in> set cmds_rev \<and> Exec (GitCherryPick ''c_R'') \<in> set cmds_rev"
    by (simp add: cmds_rev_def)
  show ?thesis using 1 2 3 by simp
qed

text \<open>
  C1. In the scenario where the replay of A conflicts, the worker fails the job with an
  error that names the commit, and B stays on the local branch; but no command follows
  the failed cherry-pick: the clone is left with the cherry-pick of A in progress. The
  handler of a failed job never touches the world.
\<close>

theorem conflict_left_in_progress:
  "world_of (job_failed E j e s) = world_of s
   \<and> iteration E_conflict s_scn =
     \<lparr>world_of = world_scn WS (clone_scn ''release/2.1'' [''c_B*'', ''r1'', ''r0''] (Some ''c_A'')),
       queue_of = [job1\<lparr>job_status := failed,
                        error_text := Some ''Command failed: git cherry-pick c_A''\<rparr>],
       trace = [Gh ''org/app'' ''label:backport'',
                Exec GitFetchAll, Exec (GitCheckout ''release/2.1''),
                Exec (GitResetHard ''release/2.1''), Exec (GitPull ''release/2.1''),
                Exec (GitBranchContains ''c_B'' ''release/2.1''), Exec (GitCherryPick ''c_B''),
                Exec (GitBranchContains ''c_A'' ''release/2.1''), Exec (GitCherryPick ''c_A''),
                Finished ''job-1'' failed]\<rparr>
   \<and> picking (clone_scn ''release/2.1'' [''c_B*'', ''r1'', ''r0''] (Some ''c_A'')) = Some ''c_A''"
proof -
  have a: "world_of (job_failed E j e s) = world_of s"
    by (simp add: job_failed_def split: sum.splits)
  have g: "getNextJob (queue_of s_scn) =
      (Some (job1\<lparr>job_status := running\<rparr>), [job1\<lparr>job_status := running\<rparr>])"
    by (simp add: s_scn_def getNextJob_def oldest_queued_def job1_def)
  have p: "processJob E_conflict ''job-1'' p_ok (s_scn\<lparr>queue_of := [job1\<lparr>job_status := running\<rparr>]\<rparr>) =
     (Some (Error ''Command failed: git cherry-pick c_A''),
      \<lparr>world_of = world_scn WS (clone_scn ''release/2.1'' [''c_B*'', ''r1'', ''r0''] (Some ''c_A'')),
       queue_of = [job1\<lparr>job_status := running\<rparr>],
       trace = [Gh ''org/app'' ''label:backport'',
                Exec GitFetchAll, Exec (GitCheckout ''release/2.1''),
                Exec (GitResetHard ''release/2.1''), Exec (GitPull ''release/2.1''),
                Exec (GitBranchContains ''c_B'' ''release/2.1''), Exec (GitCherryPick ''c_B''),
                Exec (GitBranchContains ''c_A'' ''release/2.1''), Exec (GitCherryPick ''c_A'')]\<rparr>)"
    unfolding processJob_def Let_def
    by (simp add: E_conflict_def prs_scn_def p_ok_def s_scn_def world_scn_def
          clone_scn_def WS_def eval_defs)
  have i: "iteration E_conflict s_scn =
     \<lparr>world_of = world_scn WS (clone_scn ''release/2.1'' [''c_B*'', ''r1'', ''r0''] (Some ''c_A'')),
       queue_of = [job1\<lparr>job_status := failed,
                        error_text := Some ''Command failed: git cherry-pick c_A''\<rparr>],
       trace = [Gh ''org/app'' ''label:backport'',
                Exec GitFetchAll, Exec (GitCheckout ''release/2.1''),
                Exec (GitResetHard ''release/2.1''), Exec (GitPull ''release/2.1''),
                Exec (GitBranchContains ''c_B'' ''release/2.1''), Exec (GitCherryPick ''c_B''),
                Exec (GitBranchContains ''c_A'' ''release/2.1''), Exec (GitCherryPick ''c_A''),
                Finished ''job-1'' failed]\<rparr>"
  proof -
    have jid: "job_id (job1\<lparr>job_status := running\<rparr>) = ''job-1''" by (simp add: job1_def)
    have jp: "job_params (job1\<lparr>job_status := running\<rparr>) = p_ok" by (simp add: job1_def)
    have cb: "callbackUrl p_ok = None" by (simp add: p_ok_def)
    show ?thesis
      unfolding iteration_def g
      by (simp add: jid jp p cb job_failed_def failJob_def is_running_def sendWebhook_def)
  qed
  show ?thesis using a i by (simp add: clone_scn_def)
qed

end
